theory Spec2Isabelle
  imports Main "HOL-Library.Word"
begin

unbundle bit_operations_syntax

section \<open>Solidity values, revert reasons and external calls\<close>

text \<open>
  The two contracts of the repository, \<^verbatim>\<open>contracts/EIP7702Delegate.sol\<close> and
  \<^verbatim>\<open>contracts/Paymaster.sol\<close>, are embedded function by function. Storage is a record
  that every external function takes and returns; a revert is the left summand of the
  result, and the caller of a reverted function keeps the state it had before the call
  (\<open>commit\<close> below), as the EVM does. Unsigned integers are 256-bit words whose checked
  arithmetic (Solidity 0.8) is written out as a \<open>Panic\<close> branch. A call of a function is
  taken to be well formed: its arguments have the declared types and no ether is sent to
  a function that is not payable.
\<close>

type_synonym address = "160 word"
type_synonym uint256 = "256 word"
type_synonym bytes32 = "256 word"
type_synonym bytes = "8 word list"

datatype failure =
    Require string
  | Panic nat
  | RevertData bytes
  | OwnableUnauthorizedAccount address
  | OwnableInvalidOwner address

text \<open>
  \<open>Require msg\<close> is the revert of \<^verbatim>\<open>require(cond, msg)\<close>, \<open>Panic 0x11\<close> the
  arithmetic overflow of checked arithmetic, and \<open>RevertData r\<close> a revert whose return
  data are exactly the bytes \<open>r\<close> (the assembly \<^verbatim>\<open>revert(add(result, 32), mload(result))\<close>).
  The last two constructors are the custom errors of OpenZeppelin's Ownable (version 5,
  the one whose constructor takes the initial owner), which Paymaster inherits.
\<close>

record msg_ctx =
  self :: address
  tx_origin :: address
  msg_sender :: address
  timestamp :: uint256

text \<open>
  \<open>self\<close> is \<^verbatim>\<open>address(this)\<close>, \<open>timestamp\<close> is \<^verbatim>\<open>block.timestamp\<close>.
\<close>

definition commit :: "'s \<Rightarrow> failure + 's \<Rightarrow> failure option \<times> 's" where
  "commit s r = (case r of Inl e \<Rightarrow> (Some e, s) | Inr s' \<Rightarrow> (None, s'))"

section \<open>EIP7702Delegate\<close>

text \<open>
  The structs keep their field names, but for \<^verbatim>\<open>Call.value\<close>, written \<open>callvalue\<close>. A
  function parameter that shares its name with a field is renamed: \<open>tgt\<close>, \<open>v\<close> and
  \<open>dat\<close> for the target, value and data of a call, \<open>until\<close> and \<open>cap\<close> for the
  \<^verbatim>\<open>validUntil\<close> and \<^verbatim>\<open>maxValue\<close> given to \<open>addSessionKey\<close>.
\<close>

record Call =
  target :: address
  callvalue :: uint256
  data :: bytes

record SessionKey =
  validUntil :: uint256
  maxValue :: uint256
  isActive :: bool

datatype event =
    BatchExecuted address uint256
  | SessionKeyAdded address address uint256

text \<open>
  The state an invocation of the delegate runs in: the two storage mappings, the event
  log, and \<open>world\<close>, everything outside the account's storage (balances, the storage of
  other contracts). A revert discards changes to all four.
\<close>

record 'w state =
  nonces :: "address \<Rightarrow> uint256"
  sessionKeys :: "address \<Rightarrow> address \<Rightarrow> SessionKey"
  events :: "event list"
  world :: 'w

definition init_state :: "'w \<Rightarrow> 'w state" where
  "init_state w =
     \<lparr>nonces = (\<lambda>_. 0),
      sessionKeys = (\<lambda>_ _. \<lparr>validUntil = 0, maxValue = 0, isActive = False\<rparr>),
      events = [],
      world = w\<rparr>"

text \<open>
  A low-level call \<^verbatim>\<open>target.call{value: v}(data)\<close> is a parameter of the functions that
  make one: it maps the state before the call to the success flag, the return data and
  the state after the call. The callee is arbitrary code, so it may change the world and,
  by calling back into the account, the account's own storage.
\<close>

type_synonym 'w extcall = "address \<Rightarrow> uint256 \<Rightarrow> bytes \<Rightarrow> 'w state \<Rightarrow> bool \<times> bytes \<times> 'w state"

definition onlyDelegatingAccount :: "msg_ctx \<Rightarrow> failure option" where
  "onlyDelegatingAccount c =
     (if msg_sender c = self c then None else Some (Require ''Not delegating account''))"

definition isValidSessionKey :: "msg_ctx \<Rightarrow> 'w state \<Rightarrow> address \<Rightarrow> address \<Rightarrow> bool" where
  "isValidSessionKey c s sessionKey account =
     (let key = sessionKeys s account sessionKey
      in isActive key \<and> timestamp c \<le> validUntil key)"

definition onlyAccountOrSession :: "msg_ctx \<Rightarrow> 'w state \<Rightarrow> failure option" where
  "onlyAccountOrSession c s =
     (if tx_origin c = msg_sender c \<or> isValidSessionKey c s (msg_sender c) (tx_origin c)
      then None else Some (Require ''Unauthorized''))"

text \<open>The loop of \<open>executeBatch\<close>: the calls in order, stopping at the first failure.\<close>

fun run_calls :: "'w extcall \<Rightarrow> Call list \<Rightarrow> 'w state \<Rightarrow> failure + 'w state" where
  "run_calls X [] s = Inr s"
| "run_calls X (call # rest) s =
     (case X (target call) (callvalue call) (data call) s of
        (success, result, s') \<Rightarrow>
          if \<not> success then Inl (RevertData result) else run_calls X rest s')"

text \<open>
  \<^verbatim>\<open>nonces[msg.sender]++\<close> is checked: at the largest value, \<open>- 1\<close> as a word, it panics.
\<close>

definition executeBatch :: "'w extcall \<Rightarrow> msg_ctx \<Rightarrow> Call list \<Rightarrow> 'w state \<Rightarrow> failure + 'w state" where
  "executeBatch X c calls s =
     (case onlyDelegatingAccount c of
        Some e \<Rightarrow> Inl e
      | None \<Rightarrow>
          let currentNonce = nonces s (msg_sender c) in
          if currentNonce = - 1 then Inl (Panic 0x11)
          else
            let s1 = s\<lparr>nonces := (nonces s)(msg_sender c := currentNonce + 1)\<rparr> in
            (case run_calls X calls s1 of
               Inl e \<Rightarrow> Inl e
             | Inr s2 \<Rightarrow> Inr (s2\<lparr>events := events s2 @ [BatchExecuted (msg_sender c) currentNonce]\<rparr>)))"

definition addSessionKey :: "msg_ctx \<Rightarrow> address \<Rightarrow> uint256 \<Rightarrow> uint256 \<Rightarrow> 'w state \<Rightarrow> failure + 'w state" where
  "addSessionKey c sessionKey until cap s =
     (case onlyDelegatingAccount c of
        Some e \<Rightarrow> Inl e
      | None \<Rightarrow>
          Inr (s\<lparr>sessionKeys := (sessionKeys s)(msg_sender c := (sessionKeys s (msg_sender c))
                   (sessionKey := \<lparr>validUntil = until, maxValue = cap, isActive = True\<rparr>)),
                 events := events s @ [SessionKeyAdded (msg_sender c) sessionKey until]\<rparr>))"

definition executeWithSessionKey ::
  "'w extcall \<Rightarrow> msg_ctx \<Rightarrow> address \<Rightarrow> uint256 \<Rightarrow> bytes \<Rightarrow> 'w state \<Rightarrow> failure + 'w state" where
  "executeWithSessionKey X c tgt v dat s =
     (case onlyAccountOrSession c s of
        Some e \<Rightarrow> Inl e
      | None \<Rightarrow>
          let account = tx_origin c;
              sessionKey = sessionKeys s account (msg_sender c) in
          if \<not> isActive sessionKey then Inl (Require ''Session key not active'')
          else if \<not> timestamp c \<le> validUntil sessionKey then Inl (Require ''Session key expired'')
          else if \<not> v \<le> maxValue sessionKey then Inl (Require ''Value exceeds session limit'')
          else
            (case X tgt v dat s of
               (success, result, s') \<Rightarrow>
                 if \<not> success then Inl (RevertData result) else Inr s'))"

definition revokeSessionKey :: "msg_ctx \<Rightarrow> address \<Rightarrow> 'w state \<Rightarrow> failure + 'w state" where
  "revokeSessionKey c sessionKey s =
     (case onlyDelegatingAccount c of
        Some e \<Rightarrow> Inl e
      | None \<Rightarrow>
          Inr (s\<lparr>sessionKeys := (sessionKeys s)(msg_sender c := (sessionKeys s (msg_sender c))
                   (sessionKey := (sessionKeys s (msg_sender c) sessionKey)\<lparr>isActive := False\<rparr>))\<rparr>))"

definition getNonce :: "'w state \<Rightarrow> address \<Rightarrow> uint256" where
  "getNonce s account = nonces s account"

subsection \<open>Invocations, re-entrant callees and transactions\<close>

text \<open>
  Every externally callable function of the contract, with its arguments; the last two
  are the getters Solidity generates for the public mappings.
\<close>

datatype invocation =
    ExecuteBatch "Call list"
  | AddSessionKey address uint256 uint256
  | ExecuteWithSessionKey address uint256 bytes
  | IsValidSessionKey address address
  | RevokeSessionKey address
  | Receive
  | GetNonce address
  | NoncesGetter address
  | SessionKeysGetter address address

text \<open>
  The functions declared \<^verbatim>\<open>view\<close>, the getters and the empty \<^verbatim>\<open>receive\<close> return the
  state they were given.
\<close>

fun dispatch :: "'w extcall \<Rightarrow> msg_ctx \<Rightarrow> invocation \<Rightarrow> 'w state \<Rightarrow> failure + 'w state" where
  "dispatch X c (ExecuteBatch calls) s = executeBatch X c calls s"
| "dispatch X c (AddSessionKey sessionKey until cap) s = addSessionKey c sessionKey until cap s"
| "dispatch X c (ExecuteWithSessionKey tgt v dat) s = executeWithSessionKey X c tgt v dat s"
| "dispatch X c (IsValidSessionKey sessionKey account) s = Inr s"
| "dispatch X c (RevokeSessionKey sessionKey) s = revokeSessionKey c sessionKey s"
| "dispatch X c Receive s = Inr s"
| "dispatch X c (GetNonce account) s = Inr s"
| "dispatch X c (NoncesGetter account) s = Inr s"
| "dispatch X c (SessionKeysGetter account sessionKey) s = Inr s"

text \<open>
  What the code at a call's target does is not in the repository. A callee is described
  by its reply to a call: whether it succeeds, the data it returns, the world it leaves,
  and the calls it makes back into the account while it runs, each with the
  \<^verbatim>\<open>msg.sender\<close> the account sees. A call of the account to itself is the case where the
  callee is the delegate's own code and \<^verbatim>\<open>msg.sender\<close> is the account.
\<close>

record ('w, 'i) reply =
  ok :: bool
  returndata :: bytes
  world_after :: 'w
  reentries :: "(address \<times> 'i) list"

type_synonym 'w callee =
  "msg_ctx \<Rightarrow> address \<Rightarrow> uint256 \<Rightarrow> bytes \<Rightarrow> 'w state \<Rightarrow> ('w, invocation) reply"

text \<open>
  The calls back into the contract run in order; one that reverts leaves the state as it
  was before it and the callee carries on.
\<close>

fun run_reentries ::
  "(msg_ctx \<Rightarrow> 'i \<Rightarrow> 's \<Rightarrow> failure + 's) \<Rightarrow> msg_ctx \<Rightarrow> (address \<times> 'i) list \<Rightarrow> 's \<Rightarrow> 's" where
  "run_reentries h c [] s = s"
| "run_reentries h c ((caller, invoc) # rest) s =
     run_reentries h c rest (snd (commit s (h (c\<lparr>msg_sender := caller\<rparr>) invoc s)))"

text \<open>
  The external call at a given remaining call depth. At depth 0 the call fails without
  running the callee (the EVM's call-depth limit); a callee that fails leaves the state
  as it was before the call, whatever it did while it ran.
\<close>

primrec external_call :: "'w callee \<Rightarrow> msg_ctx \<Rightarrow> nat \<Rightarrow> 'w extcall" where
  "external_call callee c 0 = (\<lambda>tgt v dat s. (False, [], s))"
| "external_call callee c (Suc depth) = (\<lambda>tgt v dat s.
     let r = callee c tgt v dat s;
         s' = run_reentries (dispatch (external_call callee c depth)) c (reentries r)
                (s\<lparr>world := world_after r\<rparr>)
     in if ok r then (True, returndata r, s') else (False, returndata r, s))"

definition transact ::
  "'w callee \<Rightarrow> nat \<Rightarrow> msg_ctx \<Rightarrow> invocation \<Rightarrow> 'w state \<Rightarrow> failure option \<times> 'w state" where
  "transact callee depth c invoc s = commit s (dispatch (external_call callee c depth) c invoc s)"

fun run :: "'w callee \<Rightarrow> nat \<Rightarrow> (msg_ctx \<times> invocation) list \<Rightarrow> 'w state \<Rightarrow> 'w state" where
  "run callee depth [] s = s"
| "run callee depth ((c, invoc) # rest) s = run callee depth rest (snd (transact callee depth c invoc s))"

text \<open>The number of batches the log records as completed for an account.\<close>

fun batches :: "address \<Rightarrow> event list \<Rightarrow> nat" where
  "batches a [] = 0"
| "batches a (BatchExecuted b n # es) = (if a = b then 1 else 0) + batches a es"
| "batches a (SessionKeyAdded b k u # es) = batches a es"


section \<open>Paymaster\<close>

text \<open>
  \<open>PackedUserOperation\<close> and \<open>PostOpMode\<close> are declared by the account-abstraction
  interfaces the contract imports; the fields and constructors are theirs.
\<close>

record PackedUserOperation =
  sender :: address
  nonce :: uint256
  initCode :: bytes
  callData :: bytes
  accountGasLimits :: bytes32
  preVerificationGas :: uint256
  gasFees :: bytes32
  paymasterAndData :: bytes
  signature :: bytes

datatype PostOpMode = opSucceeded | opReverted | postOpReverted

text \<open>
  The storage of the contract, with \<open>owner\<close> the variable of the inherited Ownable, and
  \<open>outside\<close> everything that is not the contract's storage: ether balances and the
  EntryPoint's deposits among it.
\<close>

record 'w paymaster =
  isShutdown :: bool
  entryPoint :: address
  accountFactory :: address
  owner :: address
  accountGasUsage :: "address \<Rightarrow> uint256"
  sponsoredAccounts :: "address \<Rightarrow> bool"
  outside :: 'w

text \<open>
  What the contract reads from outside, and what a payment does to it.
  \<open>balanceOf w ep a\<close> is the outcome of the external call
  \<^verbatim>\<open>IEntryPoint(ep).balanceOf(a)\<close> in the world \<open>w\<close>: \<open>Inr\<close> the number returned, or
  \<open>Inl\<close> the revert data when the call fails (no data when there is no code at \<open>ep\<close>
  or the return data are not a number, the callee's data when the callee reverts); the
  calling function then reverts with these data. \<open>balance w a\<close> is \<^verbatim>\<open>a.balance\<close>, and
  \<open>pay w a b v\<close> is the world after \<open>a\<close> has sent \<open>v\<close> wei to \<open>b\<close> with a call.
\<close>

record 'w chain =
  balanceOf :: "'w \<Rightarrow> address \<Rightarrow> address \<Rightarrow> bytes + uint256"
  balance :: "'w \<Rightarrow> address \<Rightarrow> uint256"
  pay :: "'w \<Rightarrow> address \<Rightarrow> address \<Rightarrow> uint256 \<Rightarrow> 'w"

text \<open>
  The calls the contract makes that can change state: \<^verbatim>\<open>depositTo\<close> and \<^verbatim>\<open>withdrawTo\<close>
  on the EntryPoint and the ether \<^verbatim>\<open>transfer\<close> to the owner. As for the delegate, such a
  call is a parameter: the address called, the ether sent and the message give the success
  flag, the return data and the state after the call.
\<close>

datatype outcall = DepositTo address | WithdrawTo address uint256 | Transfer

type_synonym 'w pextcall =
  "address \<Rightarrow> uint256 \<Rightarrow> outcall \<Rightarrow> 'w paymaster \<Rightarrow> bool \<times> bytes \<times> 'w paymaster"

definition MAX_GAS_LIMIT :: uint256 where
  "MAX_GAS_LIMIT = 10000000"

definition MAX_FEE_PER_GAS :: uint256 where
  "MAX_FEE_PER_GAS = 100 * 1000000000"

definition constructor :: "address \<Rightarrow> address \<Rightarrow> address \<Rightarrow> 'w \<Rightarrow> failure + 'w paymaster" where
  "constructor deployer ep factory w =
     (if deployer = 0 then Inl (OwnableInvalidOwner 0)
      else Inr \<lparr>isShutdown = False, entryPoint = ep, accountFactory = factory, owner = deployer,
                accountGasUsage = (\<lambda>_. 0), sponsoredAccounts = (\<lambda>_. False), outside = w\<rparr>)"

definition notShutdown :: "'w paymaster \<Rightarrow> failure option" where
  "notShutdown s = (if \<not> isShutdown s then None else Some (Require ''Paymaster is shut down''))"

definition onlyOwner :: "msg_ctx \<Rightarrow> 'w paymaster \<Rightarrow> failure option" where
  "onlyOwner c s =
     (if owner s \<noteq> msg_sender c then Some (OwnableUnauthorizedAccount (msg_sender c)) else None)"

definition addSponsoredAccount :: "msg_ctx \<Rightarrow> address \<Rightarrow> 'w paymaster \<Rightarrow> failure + 'w paymaster" where
  "addSponsoredAccount c account s =
     (case onlyOwner c s of
        Some e \<Rightarrow> Inl e
      | None \<Rightarrow> Inr (s\<lparr>sponsoredAccounts := (sponsoredAccounts s)(account := True)\<rparr>))"

definition removeSponsoredAccount :: "msg_ctx \<Rightarrow> address \<Rightarrow> 'w paymaster \<Rightarrow> failure + 'w paymaster" where
  "removeSponsoredAccount c account s =
     (case onlyOwner c s of
        Some e \<Rightarrow> Inl e
      | None \<Rightarrow> Inr (s\<lparr>sponsoredAccounts := (sponsoredAccounts s)(account := False)\<rparr>))"

text \<open>
  \<^verbatim>\<open>bytes16(packedFees)\<close> keeps the 16 most significant bytes of the word, and
  \<^verbatim>\<open>packedFees << 128\<close> moves the 16 least significant ones there.
\<close>

definition parseGasFees :: "bytes32 \<Rightarrow> uint256 \<times> uint256" where
  "parseGasFees packedFees =
     (let maxFeePerGas = ucast (ucast (drop_bit 128 packedFees) :: 128 word);
          maxPriorityFeePerGas = ucast (ucast (drop_bit 128 (push_bit 128 packedFees)) :: 128 word)
      in (maxFeePerGas, maxPriorityFeePerGas))"

text \<open>
  \<^verbatim>\<open>abi.encode(address)\<close> is one 32-byte big-endian word; \<^verbatim>\<open>abi.decode(context, (address))\<close>
  reverts with no data when fewer than 32 bytes are given or when the word does not fit
  an address.
\<close>

definition abi_encode_address :: "address \<Rightarrow> bytes" where
  "abi_encode_address a = map (\<lambda>i. ucast (drop_bit (8 * (31 - i)) (ucast a :: uint256))) [0..<32]"

definition abi_decode_address :: "bytes \<Rightarrow> address option" where
  "abi_decode_address bs =
     (if length bs < 32 then None
      else
        let w = foldl (\<lambda>acc b. push_bit 8 acc OR ucast b) (0 :: uint256) (take 32 bs) in
        if drop_bit 160 w \<noteq> 0 then None else Some (ucast w))"

definition validatePaymasterUserOp ::
  "'w chain \<Rightarrow> msg_ctx \<Rightarrow> 'w paymaster \<Rightarrow> PackedUserOperation \<Rightarrow> bytes32 \<Rightarrow> uint256 \<Rightarrow>
   failure + (bytes \<times> uint256)" where
  "validatePaymasterUserOp ch c s userOp userOpHash maxCost =
     (case notShutdown s of
        Some e \<Rightarrow> Inl e
      | None \<Rightarrow>
          if \<not> entryPoint s = msg_sender c then Inl (Require ''Invalid entry point'')
          else if \<not> preVerificationGas userOp \<le> MAX_GAS_LIMIT then Inl (Require ''Gas limits too high'')
          else
            (case balanceOf ch (outside s) (entryPoint s) (self c) of
               Inl r \<Rightarrow> Inl (RevertData r)
             | Inr deposited \<Rightarrow>
                 if \<not> deposited \<ge> maxCost then Inl (Require ''Insufficient funds for gas'')
                 else
                   let (maxFeePerGas, unused) = parseGasFees (gasFees userOp) in
                   if \<not> maxFeePerGas \<le> MAX_FEE_PER_GAS then Inl (Require ''Gas fee too high'')
                   else if \<not> sponsoredAccounts s (sender userOp)
                     then Inl (Require ''Account not sponsored'')
                   else Inr (abi_encode_address (sender userOp), 0)))"

definition postOp ::
  "msg_ctx \<Rightarrow> PostOpMode \<Rightarrow> bytes \<Rightarrow> uint256 \<Rightarrow> uint256 \<Rightarrow> 'w paymaster \<Rightarrow> failure + 'w paymaster" where
  "postOp c mode ctxt actualGasCost actualUserOpFeePerGas s =
     (case notShutdown s of
        Some e \<Rightarrow> Inl e
      | None \<Rightarrow>
          if \<not> entryPoint s = msg_sender c then Inl (Require ''Invalid entry point'')
          else
            (case abi_decode_address ctxt of
               None \<Rightarrow> Inl (RevertData [])
             | Some userAccount \<Rightarrow>
                 if 2 ^ 256 \<le> unat (accountGasUsage s userAccount) + unat actualGasCost
                 then Inl (Panic 0x11)
                 else Inr (s\<lparr>accountGasUsage := (accountGasUsage s)
                             (userAccount := accountGasUsage s userAccount + actualGasCost)\<rparr>)))"

definition deposit :: "'w pextcall \<Rightarrow> msg_ctx \<Rightarrow> uint256 \<Rightarrow> 'w paymaster \<Rightarrow> failure + 'w paymaster" where
  "deposit X c msg_value s =
     (case onlyOwner c s of
        Some e \<Rightarrow> Inl e
      | None \<Rightarrow>
          (case X (entryPoint s) msg_value (DepositTo (self c)) s of
             (success, result, s') \<Rightarrow> if \<not> success then Inl (RevertData result) else Inr s'))"

definition getDeposit :: "'w chain \<Rightarrow> msg_ctx \<Rightarrow> 'w paymaster \<Rightarrow> failure + uint256" where
  "getDeposit ch c s =
     (case balanceOf ch (outside s) (entryPoint s) (self c) of
        Inl r \<Rightarrow> Inl (RevertData r)
      | Inr deposited \<Rightarrow> Inr deposited)"

definition withdrawFromEntryPoint ::
  "'w pextcall \<Rightarrow> msg_ctx \<Rightarrow> uint256 \<Rightarrow> 'w paymaster \<Rightarrow> failure + 'w paymaster" where
  "withdrawFromEntryPoint X c amount s =
     (case onlyOwner c s of
        Some e \<Rightarrow> Inl e
      | None \<Rightarrow>
          (case X (entryPoint s) 0 (WithdrawTo (owner s) amount) s of
             (success, result, s') \<Rightarrow> if \<not> success then Inl (RevertData result) else Inr s'))"

text \<open>The modifiers run in the order they are written: \<open>onlyOwner\<close>, then \<open>notShutdown\<close>.\<close>

definition withdraw :: "'w chain \<Rightarrow> 'w pextcall \<Rightarrow> msg_ctx \<Rightarrow> 'w paymaster \<Rightarrow> failure + 'w paymaster" where
  "withdraw ch X c s =
     (case onlyOwner c s of
        Some e \<Rightarrow> Inl e
      | None \<Rightarrow>
          (case notShutdown s of
             Some e \<Rightarrow> Inl e
           | None \<Rightarrow>
               (case X (owner s) (balance ch (outside s) (self c)) Transfer s of
                  (success, result, s') \<Rightarrow> if \<not> success then Inl (RevertData result) else Inr s')))"

definition shutdown :: "'w chain \<Rightarrow> 'w pextcall \<Rightarrow> msg_ctx \<Rightarrow> 'w paymaster \<Rightarrow> failure + 'w paymaster" where
  "shutdown ch X c s =
     (case onlyOwner c s of
        Some e \<Rightarrow> Inl e
      | None \<Rightarrow>
          let s1 = s\<lparr>isShutdown := True\<rparr> in
          (case X (owner s1) (balance ch (outside s1) (self c)) Transfer s1 of
             (success, result, s') \<Rightarrow> if \<not> success then Inl (RevertData result) else Inr s'))"

text \<open>The two functions Ownable adds to the contract's interface.\<close>

definition renounceOwnership :: "msg_ctx \<Rightarrow> 'w paymaster \<Rightarrow> failure + 'w paymaster" where
  "renounceOwnership c s =
     (case onlyOwner c s of Some e \<Rightarrow> Inl e | None \<Rightarrow> Inr (s\<lparr>owner := 0\<rparr>))"

definition transferOwnership :: "msg_ctx \<Rightarrow> address \<Rightarrow> 'w paymaster \<Rightarrow> failure + 'w paymaster" where
  "transferOwnership c newOwner s =
     (case onlyOwner c s of
        Some e \<Rightarrow> Inl e
      | None \<Rightarrow> if newOwner = 0 then Inl (OwnableInvalidOwner 0) else Inr (s\<lparr>owner := newOwner\<rparr>))"

subsection \<open>Invocations and transactions of the Paymaster\<close>

text \<open>
  Every externally callable function; \<open>Deposit\<close> and \<open>ReceiveEther\<close> carry
  \<^verbatim>\<open>msg.value\<close>, and \<open>Getter\<close> stands for any of the generated getters and \<open>owner()\<close>.
  The two payable functions run in the world where the sender has paid \<^verbatim>\<open>msg.value\<close> to
  the contract; \<^verbatim>\<open>receive\<close> does nothing more.
\<close>

datatype pinvocation =
    AddSponsoredAccount address
  | RemoveSponsoredAccount address
  | ValidatePaymasterUserOp PackedUserOperation bytes32 uint256
  | PostOp PostOpMode bytes uint256 uint256
  | Deposit uint256
  | GetDeposit
  | WithdrawFromEntryPoint uint256
  | Withdraw
  | Shutdown
  | ReceiveEther uint256
  | RenounceOwnership
  | TransferOwnership address
  | Getter

fun pdispatch ::
  "'w chain \<Rightarrow> 'w pextcall \<Rightarrow> msg_ctx \<Rightarrow> pinvocation \<Rightarrow> 'w paymaster \<Rightarrow> failure + 'w paymaster" where
  "pdispatch ch X c (AddSponsoredAccount account) s = addSponsoredAccount c account s"
| "pdispatch ch X c (RemoveSponsoredAccount account) s = removeSponsoredAccount c account s"
| "pdispatch ch X c (ValidatePaymasterUserOp userOp userOpHash maxCost) s =
     (case validatePaymasterUserOp ch c s userOp userOpHash maxCost of
        Inl e \<Rightarrow> Inl e | Inr r \<Rightarrow> Inr s)"
| "pdispatch ch X c (PostOp mode ctxt actualGasCost actualUserOpFeePerGas) s =
     postOp c mode ctxt actualGasCost actualUserOpFeePerGas s"
| "pdispatch ch X c (Deposit msg_value) s =
     deposit X c msg_value (s\<lparr>outside := pay ch (outside s) (msg_sender c) (self c) msg_value\<rparr>)"
| "pdispatch ch X c GetDeposit s =
     (case getDeposit ch c s of Inl e \<Rightarrow> Inl e | Inr r \<Rightarrow> Inr s)"
| "pdispatch ch X c (WithdrawFromEntryPoint amount) s = withdrawFromEntryPoint X c amount s"
| "pdispatch ch X c Withdraw s = withdraw ch X c s"
| "pdispatch ch X c Shutdown s = shutdown ch X c s"
| "pdispatch ch X c (ReceiveEther msg_value) s =
     Inr (s\<lparr>outside := pay ch (outside s) (msg_sender c) (self c) msg_value\<rparr>)"
| "pdispatch ch X c RenounceOwnership s = renounceOwnership c s"
| "pdispatch ch X c (TransferOwnership newOwner) s = transferOwnership c newOwner s"
| "pdispatch ch X c Getter s = Inr s"

type_synonym 'w pcallee =
  "msg_ctx \<Rightarrow> address \<Rightarrow> uint256 \<Rightarrow> outcall \<Rightarrow> 'w paymaster \<Rightarrow> ('w, pinvocation) reply"

primrec paymaster_call :: "'w chain \<Rightarrow> 'w pcallee \<Rightarrow> msg_ctx \<Rightarrow> nat \<Rightarrow> 'w pextcall" where
  "paymaster_call ch callee c 0 = (\<lambda>tgt v m s. (False, [], s))"
| "paymaster_call ch callee c (Suc depth) = (\<lambda>tgt v m s.
     let r = callee c tgt v m s;
         s' = run_reentries (pdispatch ch (paymaster_call ch callee c depth)) c (reentries r)
                (s\<lparr>outside := world_after r\<rparr>)
     in if ok r then (True, returndata r, s') else (False, returndata r, s))"

definition ptransact ::
  "'w chain \<Rightarrow> 'w pcallee \<Rightarrow> nat \<Rightarrow> msg_ctx \<Rightarrow> pinvocation \<Rightarrow> 'w paymaster \<Rightarrow>
   failure option \<times> 'w paymaster" where
  "ptransact ch callee depth c invoc s =
     commit s (pdispatch ch (paymaster_call ch callee c depth) c invoc s)"

fun prun ::
  "'w chain \<Rightarrow> 'w pcallee \<Rightarrow> nat \<Rightarrow> (msg_ctx \<times> pinvocation) list \<Rightarrow> 'w paymaster \<Rightarrow> 'w paymaster" where
  "prun ch callee depth [] s = s"
| "prun ch callee depth ((c, invoc) # rest) s =
     prun ch callee depth rest (snd (ptransact ch callee depth c invoc s))"

section \<open>Relations between the states before and after a call\<close>

text \<open>
  \<open>nonce_follows_log a s s'\<close>: from \<open>s\<close> to \<open>s'\<close> the log has only grown, and the nonce of
  \<open>a\<close> has grown by the number of \<open>BatchExecuted\<close> events for \<open>a\<close> among the new entries.
\<close>

definition nonce_follows_log :: "address \<Rightarrow> 'w state \<Rightarrow> 'w state \<Rightarrow> bool" where
  "nonce_follows_log a s s' =
     (\<exists>es. events s' = events s @ es \<and> unat (nonces s' a) = unat (nonces s a) + batches a es)"

text \<open>
  \<open>paymaster_monotone s s'\<close>: a shut-down paymaster is still shut down, and no account's
  recorded gas usage is smaller.
\<close>

definition paymaster_monotone :: "'w paymaster \<Rightarrow> 'w paymaster \<Rightarrow> bool" where
  "paymaster_monotone s s' =
     ((isShutdown s \<longrightarrow> isShutdown s') \<and>
      (\<forall>a. unat (accountGasUsage s a) \<le> unat (accountGasUsage s' a)))"

section \<open>The admission checks as an ordered list\<close>

text \<open>
  A check is a condition that must hold and the reason reported when it does not;
  \<open>first_failure\<close> reports the first check of a list that fails.
\<close>

fun first_failure :: "(bool \<times> string) list \<Rightarrow> string option" where
  "first_failure [] = None"
| "first_failure ((holds, reason) # rest) = (if holds then first_failure rest else Some reason)"

text \<open>
  The checks of \<open>validatePaymasterUserOp\<close> in the order the function makes them: three
  before it asks the EntryPoint for its deposit, three after, on the deposit returned.
\<close>

definition checks_before_query ::
  "msg_ctx \<Rightarrow> 'w paymaster \<Rightarrow> PackedUserOperation \<Rightarrow> (bool \<times> string) list" where
  "checks_before_query c s userOp =
     [(\<not> isShutdown s, ''Paymaster is shut down''),
      (entryPoint s = msg_sender c, ''Invalid entry point''),
      (unat (preVerificationGas userOp) \<le> 10000000, ''Gas limits too high'')]"

definition checks_after_query ::
  "'w paymaster \<Rightarrow> PackedUserOperation \<Rightarrow> uint256 \<Rightarrow> uint256 \<Rightarrow> (bool \<times> string) list" where
  "checks_after_query s userOp maxCost deposited =
     [(unat maxCost \<le> unat deposited, ''Insufficient funds for gas''),
      (unat (drop_bit 128 (gasFees userOp)) \<le> 100000000000, ''Gas fee too high''),
      (sponsoredAccounts s (sender userOp), ''Account not sponsored'')]"

definition admission_checks ::
  "msg_ctx \<Rightarrow> 'w paymaster \<Rightarrow> PackedUserOperation \<Rightarrow> uint256 \<Rightarrow> uint256 \<Rightarrow> (bool \<times> string) list" where
  "admission_checks c s userOp maxCost deposited =
     checks_before_query c s userOp @ checks_after_query s userOp maxCost deposited"

text \<open>
  The five checks in the order the specification gives them: shutdown, gas ceiling,
  fee-rate ceiling, funded balance, whitelist; each check is the one the function makes
  under that name, on the deposit the EntryPoint returns.
\<close>

definition specified_checks ::
  "msg_ctx \<Rightarrow> 'w paymaster \<Rightarrow> PackedUserOperation \<Rightarrow> uint256 \<Rightarrow> uint256 \<Rightarrow> (bool \<times> string) list" where
  "specified_checks c s userOp maxCost deposited =
     [(\<not> isShutdown s, ''Paymaster is shut down''),
      (unat (preVerificationGas userOp) \<le> 10000000, ''Gas limits too high''),
      (unat (drop_bit 128 (gasFees userOp)) \<le> 100000000000, ''Gas fee too high''),
      (unat maxCost \<le> unat deposited, ''Insufficient funds for gas''),
      (sponsoredAccounts s (sender userOp), ''Account not sponsored'')]"

section \<open>Example inputs\<close>

text \<open>
  An account at address 5 calling itself at time 100; a callee that fails exactly when
  address 2 is called, returns the byte 7 and counts the calls in the world; the state
  after the account has granted itself a session key (valid until 1000, cap 100); and a
  callee that stands for the account's own code where the example needs it: called at the
  account's address with \<open>executeBatch_no_calls\<close>, the ABI encoding of a call of
  \<^verbatim>\<open>executeBatch\<close> with an empty array (the selector \<^verbatim>\<open>0x34fcd5be\<close> of
  \<^verbatim>\<open>executeBatch((address,uint256,bytes)[])\<close>, the offset 32 and the length 0), it runs
  \<open>executeBatch\<close> with no calls, the account being the sender; any other call succeeds
  and does nothing.
\<close>

definition account_ctx :: msg_ctx where
  "account_ctx = \<lparr>self = 5, tx_origin = 5, msg_sender = 5, timestamp = 100\<rparr>"

definition counting_callee :: "nat extcall" where
  "counting_callee = (\<lambda>tgt v dat s. (tgt \<noteq> 2, [7], s\<lparr>world := Suc (world s)\<rparr>))"

definition granted_state :: "'w \<Rightarrow> 'w state" where
  "granted_state w = snd (commit (init_state w) (addSessionKey account_ctx 5 1000 100 (init_state w)))"

definition executeBatch_no_calls :: bytes where
  "executeBatch_no_calls = [0x34, 0xfc, 0xd5, 0xbe] @ replicate 31 0 @ [0x20] @ replicate 32 0"

definition self_calling :: "unit callee" where
  "self_calling = (\<lambda>c tgt v dat s.
     \<lparr>ok = True, returndata = [], world_after = world s,
      reentries = (if tgt = self c \<and> dat = executeBatch_no_calls
                   then [(self c, ExecuteBatch [])] else [])\<rparr>)"

text \<open>
  A paymaster at address 6, owned by address 9, with the EntryPoint at address 8 and
  address 7 whitelisted; the world is the paymaster's deposit at the EntryPoint, which
  the EntryPoint returns and a payment of ether leaves as it is. In \<open>codeless_chain\<close>
  there is no code at the EntryPoint's address, so the query fails with no data. The
  owner calls the paymaster, or the EntryPoint does; the callees it calls do nothing and
  succeed.
\<close>

definition deposit_chain :: "uint256 chain" where
  "deposit_chain =
     \<lparr>balanceOf = (\<lambda>w ep a. Inr w), balance = (\<lambda>w a. 0), pay = (\<lambda>w a b v. w)\<rparr>"

definition codeless_chain :: "uint256 chain" where
  "codeless_chain =
     \<lparr>balanceOf = (\<lambda>w ep a. Inl []), balance = (\<lambda>w a. 0), pay = (\<lambda>w a b v. w)\<rparr>"

definition owner_ctx :: msg_ctx where
  "owner_ctx = \<lparr>self = 6, tx_origin = 9, msg_sender = 9, timestamp = 100\<rparr>"

definition entrypoint_ctx :: msg_ctx where
  "entrypoint_ctx = \<lparr>self = 6, tx_origin = 1, msg_sender = 8, timestamp = 100\<rparr>"

definition example_paymaster :: "uint256 \<Rightarrow> uint256 paymaster" where
  "example_paymaster funds =
     \<lparr>isShutdown = False, entryPoint = 8, accountFactory = 3, owner = 9,
      accountGasUsage = (\<lambda>_. 0), sponsoredAccounts = (\<lambda>a. a = 7), outside = funds\<rparr>"

definition example_op :: "uint256 \<Rightarrow> PackedUserOperation" where
  "example_op maxFeePerGas =
     \<lparr>sender = 7, nonce = 0, initCode = [], callData = [], accountGasLimits = 0,
      preVerificationGas = 50000, gasFees = push_bit 128 maxFeePerGas, paymasterAndData = [],
      signature = []\<rparr>"

definition quiet_callee :: "uint256 pcallee" where
  "quiet_callee = (\<lambda>c tgt v m s.
     \<lparr>ok = True, returndata = [], world_after = outside s, reentries = []\<rparr>)"

section \<open>Properties of EIP7702Delegate\<close>

lemma run_calls_append:
  "run_calls X (before @ rest) s =
     (case run_calls X before s of Inl e \<Rightarrow> Inl e | Inr s' \<Rightarrow> run_calls X rest s')"
  by (induction before arbitrary: s) (auto split: prod.splits)

lemma unat_succ:
  fixes n :: uint256
  assumes "n \<noteq> - 1"
  shows "unat (n + 1) = unat n + 1"
proof -
  from assms have "1 + n \<noteq> 0"
    by (simp add: eq_neg_iff_add_eq_0 add.commute)
  from unatSuc [OF this] show ?thesis
    by (simp add: add.commute)
qed

subsection \<open>The nonce follows the log\<close>

lemma batches_append: "batches a (xs @ ys) = batches a xs + batches a ys"
  by (induction a xs rule: batches.induct) auto

lemma follows_refl: "nonce_follows_log a s s"
  by (simp add: nonce_follows_log_def)

lemma follows_trans:
  "nonce_follows_log a s t \<Longrightarrow> nonce_follows_log a t u \<Longrightarrow> nonce_follows_log a s u"
  by (auto simp: nonce_follows_log_def batches_append)

lemma run_calls_follows:
  assumes X: "\<And>t v d s. nonce_follows_log a s (snd (snd (X t v d s)))"
  shows "run_calls X calls s = Inr s' \<Longrightarrow> nonce_follows_log a s s'"
proof (induction calls arbitrary: s)
  case Nil
  then show ?case by (simp add: follows_refl)
next
  case (Cons call rest)
  obtain b r s1 where x: "X (target call) (callvalue call) (data call) s = (b, r, s1)"
    by (cases "X (target call) (callvalue call) (data call) s") auto
  with Cons.prems have rc: "run_calls X rest s1 = Inr s'"
    by (auto split: if_splits)
  from X [of s "target call" "callvalue call" "data call"] x
  have "nonce_follows_log a s s1" by simp
  with Cons.IH [OF rc] show ?case by (blast intro: follows_trans)
qed

lemma executeBatch_follows:
  assumes X: "\<And>t v d s. nonce_follows_log a s (snd (snd (X t v d s)))"
    and ex: "executeBatch X c calls s = Inr s'"
  shows "nonce_follows_log a s s'"
proof -
  let ?n = "nonces s (msg_sender c)"
  let ?s1 = "s\<lparr>nonces := (nonces s)(msg_sender c := ?n + 1)\<rparr>"
  from ex have nm: "?n \<noteq> - 1"
    by (auto simp: executeBatch_def onlyDelegatingAccount_def Let_def split: if_splits)
  from ex nm obtain s2 where rc: "run_calls X calls ?s1 = Inr s2"
    and s': "s' = s2\<lparr>events := events s2 @ [BatchExecuted (msg_sender c) ?n]\<rparr>"
    by (auto simp: executeBatch_def onlyDelegatingAccount_def Let_def split: sum.splits if_splits)
  from run_calls_follows [OF X rc] obtain es where es: "events s2 = events s @ es"
    and n2: "unat (nonces s2 a) = unat (nonces ?s1 a) + batches a es"
    by (auto simp: nonce_follows_log_def)
  have "unat (nonces ?s1 a) = unat (nonces s a) + (if a = msg_sender c then 1 else 0)"
    using nm by (simp add: unat_succ)
  with es n2 s' show ?thesis
    by (auto simp: nonce_follows_log_def batches_append)
qed

lemma dispatch_follows:
  assumes X: "\<And>t v d s. nonce_follows_log a s (snd (snd (X t v d s)))"
    and ex: "dispatch X c invoc s = Inr s'"
  shows "nonce_follows_log a s s'"
proof (cases invoc)
  case (ExecuteBatch calls)
  with ex executeBatch_follows [OF X] show ?thesis by simp
next
  case (AddSessionKey k u m)
  with ex show ?thesis
    by (auto simp: addSessionKey_def nonce_follows_log_def split: option.splits)
next
  case (ExecuteWithSessionKey t v d)
  with ex have "s' = snd (snd (X t v d s))"
    by (auto simp: executeWithSessionKey_def Let_def split: option.splits if_splits prod.splits)
  with X show ?thesis by simp
next
  case (RevokeSessionKey k)
  with ex show ?thesis
    by (auto simp: revokeSessionKey_def nonce_follows_log_def split: option.splits)
qed (use ex in \<open>simp_all add: follows_refl\<close>)

lemma run_reentries_follows:
  assumes h: "\<And>c invoc s s'. h c invoc s = Inr s' \<Longrightarrow> nonce_follows_log a s s'"
  shows "nonce_follows_log a s (run_reentries h c rs s)"
proof (induction rs arbitrary: s)
  case Nil
  show ?case by (simp add: follows_refl)
next
  case (Cons r rs)
  obtain caller invoc where r: "r = (caller, invoc)" by (cases r)
  have "nonce_follows_log a s (snd (commit s (h (c\<lparr>msg_sender := caller\<rparr>) invoc s)))"
    by (cases "h (c\<lparr>msg_sender := caller\<rparr>) invoc s") (simp_all add: commit_def follows_refl h)
  from follows_trans [OF this Cons.IH] r show ?case by simp
qed

lemma external_call_follows:
  "nonce_follows_log a s (snd (snd (external_call callee c depth t v d s)))"
proof (induction depth arbitrary: s t v d)
  case 0
  show ?case by (simp add: follows_refl)
next
  case (Suc depth)
  let ?r = "callee c t v d s"
  have w: "nonce_follows_log a s (s\<lparr>world := world_after ?r\<rparr>)"
    by (simp add: nonce_follows_log_def)
  have "nonce_follows_log a (s\<lparr>world := world_after ?r\<rparr>)
     (run_reentries (dispatch (external_call callee c depth)) c (reentries ?r)
        (s\<lparr>world := world_after ?r\<rparr>))"
    by (rule run_reentries_follows) (rule dispatch_follows [OF Suc.IH])
  from follows_trans [OF w this] show ?case
    by (simp add: Let_def follows_refl)
qed

lemma transact_follows: "nonce_follows_log a s (snd (transact callee depth c invoc s))"
proof (cases "dispatch (external_call callee c depth) c invoc s")
  case (Inl e)
  then show ?thesis by (simp add: transact_def commit_def follows_refl)
next
  case (Inr s')
  from dispatch_follows [OF external_call_follows Inr] Inr show ?thesis
    by (simp add: transact_def commit_def)
qed

lemma run_follows: "nonce_follows_log a s (run callee depth txs s)"
proof (induction txs arbitrary: s)
  case Nil
  show ?case by (simp add: follows_refl)
next
  case (Cons x txs)
  obtain c invoc where "x = (c, invoc)" by (cases x)
  then show ?case
    using follows_trans [OF transact_follows [of a s callee depth c invoc]
        Cons.IH [of "snd (transact callee depth c invoc s)"]]
    by simp
qed

lemma run_calls_nonces:
  assumes X: "\<And>t v d s. nonces (snd (snd (X t v d s))) = nonces s"
  shows "run_calls X calls s = Inr s' \<Longrightarrow> nonces s' = nonces s"
proof (induction calls arbitrary: s)
  case Nil
  then show ?case by simp
next
  case (Cons call rest)
  obtain b r s1 where x: "X (target call) (callvalue call) (data call) s = (b, r, s1)"
    by (cases "X (target call) (callvalue call) (data call) s") auto
  with Cons.prems have rc: "run_calls X rest s1 = Inr s'"
    by (auto split: if_splits)
  from X [of "target call" "callvalue call" "data call" s] x have "nonces s1 = nonces s" by simp
  with Cons.IH [OF rc] show ?case by simp
qed

lemma executeBatch_plus_one:
  assumes X: "\<And>t v d s. nonces (snd (snd (X t v d s))) = nonces s"
    and ex: "executeBatch X c calls s = Inr s'"
  shows "unat (nonces s' (msg_sender c)) = unat (nonces s (msg_sender c)) + 1 \<and>
         (\<forall>b. b \<noteq> msg_sender c \<longrightarrow> nonces s' b = nonces s b)"
proof -
  let ?n = "nonces s (msg_sender c)"
  let ?s1 = "s\<lparr>nonces := (nonces s)(msg_sender c := ?n + 1)\<rparr>"
  from ex have nm: "?n \<noteq> - 1"
    by (auto simp: executeBatch_def onlyDelegatingAccount_def Let_def split: if_splits)
  from ex nm obtain s2 where rc: "run_calls X calls ?s1 = Inr s2"
    and s': "s' = s2\<lparr>events := events s2 @ [BatchExecuted (msg_sender c) ?n]\<rparr>"
    by (auto simp: executeBatch_def onlyDelegatingAccount_def Let_def split: sum.splits if_splits)
  from run_calls_nonces [OF X rc] have "nonces s2 = nonces ?s1" .
  with s' nm show ?thesis by (simp add: unat_succ)
qed

lemma executeWithSessionKey_result:
  "executeWithSessionKey X c tgt v dat s = Inr s' \<Longrightarrow> s' = snd (snd (X tgt v dat s))"
  by (auto simp: executeWithSessionKey_def Let_def split: option.splits if_splits prod.splits)

subsection \<open>Atomic batches\<close>

text \<open>
  C1. A batch whose calls succeed up to some call that fails reverts: the batch returns
  the failing call's return data as its own revert data, byte for byte, and the caller
  is left with the state it had before the batch, so the nonce increment, the log and
  whatever the earlier calls did to the world are gone.
\<close>

theorem executeBatch_atomic:
  fixes X :: "'w extcall"
  assumes "msg_sender c = self c"
    and "nonces s (msg_sender c) \<noteq> - 1"
    and "run_calls X before (s\<lparr>nonces := (nonces s)(msg_sender c := nonces s (msg_sender c) + 1)\<rparr>)
           = Inr sm"
    and "X (target failing) (callvalue failing) (data failing) sm = (False, r, sx)"
  shows "executeBatch X c (before @ failing # rest) s = Inl (RevertData r) \<and>
         commit s (executeBatch X c (before @ failing # rest) s) = (Some (RevertData r), s)"
proof -
  have "executeBatch X c (before @ failing # rest) s = Inl (RevertData r)"
    using assms
    by (simp add: executeBatch_def onlyDelegatingAccount_def run_calls_append Let_def)
  then show ?thesis by (simp add: commit_def)
qed

theorem executeBatch_atomic_witness:
  "executeBatch counting_callee account_ctx
     ([\<lparr>target = 1, callvalue = 0, data = []\<rparr>] @ \<lparr>target = 2, callvalue = 3, data = [1]\<rparr> #
      [\<lparr>target = 4, callvalue = 0, data = []\<rparr>]) (init_state 0) = Inl (RevertData [7]) \<and>
   commit (init_state 0) (executeBatch counting_callee account_ctx
     ([\<lparr>target = 1, callvalue = 0, data = []\<rparr>] @ \<lparr>target = 2, callvalue = 3, data = [1]\<rparr> #
      [\<lparr>target = 4, callvalue = 0, data = []\<rparr>]) (init_state 0)) =
     (Some (RevertData [7]), init_state 0)"
proof -
  let ?s1 = "(init_state (0::nat))\<lparr>nonces := (nonces (init_state (0::nat)))
               (msg_sender account_ctx := nonces (init_state (0::nat)) (msg_sender account_ctx) + 1)\<rparr>"
  have 1: "msg_sender account_ctx = self account_ctx"
    by (simp add: account_ctx_def)
  have 2: "nonces (init_state (0::nat)) (msg_sender account_ctx) \<noteq> - 1"
    by (simp add: init_state_def)
  have 3: "run_calls counting_callee [\<lparr>target = 1, callvalue = 0, data = []\<rparr>] ?s1
             = Inr (?s1\<lparr>world := 1\<rparr>)"
    by (simp add: counting_callee_def init_state_def)
  have 4: "counting_callee (target \<lparr>target = 2, callvalue = 3, data = [1]\<rparr>)
             (callvalue \<lparr>target = 2, callvalue = 3, data = [1]\<rparr>)
             (data \<lparr>target = 2, callvalue = 3, data = [1]\<rparr>) (?s1\<lparr>world := 1\<rparr>)
             = (False, [7], ?s1\<lparr>world := 2\<rparr>)"
    by (simp add: counting_callee_def init_state_def)
  from executeBatch_atomic [OF 1 2 3 4] show ?thesis .
qed

subsection \<open>Session keys\<close>

text \<open>
  C3. \<open>isValidSessionKey\<close> is true exactly when the stored entry is active and the
  block time is at most its \<open>validUntil\<close> (as unsigned numbers), and calling it leaves the
  state as it is. So an inactive entry is invalid whatever the time and \<open>validUntil\<close>
  are, and an entry whose \<open>validUntil\<close> is before the time is invalid even when active.
\<close>

theorem isValidSessionKey_iff:
  "isValidSessionKey c s k a =
     (isActive (sessionKeys s a k) \<and> unat (timestamp c) \<le> unat (validUntil (sessionKeys s a k))) \<and>
   dispatch X c (IsValidSessionKey k a) s = Inr s \<and>
   (\<not> isActive (sessionKeys s a k) \<longrightarrow> \<not> isValidSessionKey c s k a) \<and>
   (unat (validUntil (sessionKeys s a k)) < unat (timestamp c) \<longrightarrow> \<not> isValidSessionKey c s k a)"
  by (auto simp: isValidSessionKey_def Let_def word_le_nat_alt)

theorem isValidSessionKey_iff_witness:
  "\<not> isValidSessionKey account_ctx (init_state ()) 3 5 \<and>
   \<not> isValidSessionKey account_ctx
       ((init_state ())\<lparr>sessionKeys := (\<lambda>a k. \<lparr>validUntil = 99, maxValue = 1, isActive = True\<rparr>)\<rparr>) 3 5 \<and>
   isValidSessionKey account_ctx
       ((init_state ())\<lparr>sessionKeys := (\<lambda>a k. \<lparr>validUntil = 100, maxValue = 1, isActive = True\<rparr>)\<rparr>) 3 5"
  using isValidSessionKey_iff [of account_ctx "init_state ()" 3 5]
    isValidSessionKey_iff [of account_ctx
       "(init_state ())\<lparr>sessionKeys := (\<lambda>a k. \<lparr>validUntil = 99, maxValue = 1, isActive = True\<rparr>)\<rparr>" 3 5]
    isValidSessionKey_iff [of account_ctx
       "(init_state ())\<lparr>sessionKeys := (\<lambda>a k. \<lparr>validUntil = 100, maxValue = 1, isActive = True\<rparr>)\<rparr>" 3 5]
  by (simp add: init_state_def account_ctx_def)

text \<open>
  C4. Under an active, unexpired session key for the caller, \<open>executeWithSessionKey\<close>
  rejects every value above \<open>maxValue\<close>, one unit above included, and for every value up
  to \<open>maxValue\<close>, \<open>maxValue\<close> itself included, makes the call: the outcome is the callee's.
  The function writes nothing to storage: the state after a successful call is the one
  the callee left, so the function never reduces the cap by what was spent.
\<close>

theorem executeWithSessionKey_value_cap:
  fixes X :: "'w extcall"
  assumes "isActive (sessionKeys s (tx_origin c) (msg_sender c))"
    and "unat (timestamp c) \<le> unat (validUntil (sessionKeys s (tx_origin c) (msg_sender c)))"
  shows "(unat (maxValue (sessionKeys s (tx_origin c) (msg_sender c))) < unat v \<longrightarrow>
            executeWithSessionKey X c tgt v dat s = Inl (Require ''Value exceeds session limit'')) \<and>
         (unat v = unat (maxValue (sessionKeys s (tx_origin c) (msg_sender c))) + 1 \<longrightarrow>
            executeWithSessionKey X c tgt v dat s = Inl (Require ''Value exceeds session limit'')) \<and>
         (unat v \<le> unat (maxValue (sessionKeys s (tx_origin c) (msg_sender c))) \<longrightarrow>
            executeWithSessionKey X c tgt v dat s =
              (case X tgt v dat s of (success, result, s') \<Rightarrow>
                 if success then Inr s' else Inl (RevertData result))) \<and>
         executeWithSessionKey X c tgt (maxValue (sessionKeys s (tx_origin c) (msg_sender c))) dat s =
              (case X tgt (maxValue (sessionKeys s (tx_origin c) (msg_sender c))) dat s of
                 (success, result, s') \<Rightarrow> if success then Inr s' else Inl (RevertData result)) \<and>
         (\<forall>s'. executeWithSessionKey X c tgt v dat s = Inr s' \<longrightarrow> s' = snd (snd (X tgt v dat s)))"
  using assms executeWithSessionKey_result [of X c tgt v dat s]
  by (auto simp: executeWithSessionKey_def onlyAccountOrSession_def isValidSessionKey_def Let_def
        word_le_nat_alt split: prod.splits)

lemma granted_state_key:
  "sessionKeys (granted_state w) 5 5 = \<lparr>validUntil = 1000, maxValue = 100, isActive = True\<rparr>"
  "nonces (granted_state w) = (\<lambda>_. 0)"
  "world (granted_state w) = w"
  by (simp_all add: granted_state_def commit_def addSessionKey_def onlyDelegatingAccount_def
      account_ctx_def init_state_def)

theorem executeWithSessionKey_value_cap_witness:
  "executeWithSessionKey counting_callee account_ctx 1 101 [] (granted_state 0) =
     Inl (Require ''Value exceeds session limit'') \<and>
   executeWithSessionKey counting_callee account_ctx 1 100 [] (granted_state 0) =
     Inr ((granted_state 0)\<lparr>world := 1\<rparr>)"
proof -
  have 1: "isActive (sessionKeys (granted_state (0::nat)) (tx_origin account_ctx) (msg_sender account_ctx))"
    by (simp add: account_ctx_def granted_state_key)
  have 2: "unat (timestamp account_ctx) \<le>
      unat (validUntil (sessionKeys (granted_state (0::nat)) (tx_origin account_ctx) (msg_sender account_ctx)))"
    by (simp add: account_ctx_def granted_state_key)
  from executeWithSessionKey_value_cap [OF 1 2, of 101 counting_callee 1 "[]"]
    executeWithSessionKey_value_cap [OF 1 2, of 100 counting_callee 1 "[]"]
  show ?thesis
    by (simp add: account_ctx_def granted_state_key counting_callee_def)
qed

text \<open>
  C7. Called by the account, \<open>addSessionKey\<close> succeeds for every \<open>validUntil\<close> and every
  prior entry, and replaces the entry of the pair by the new \<open>validUntil\<close>, the new
  \<open>maxValue\<close> and an active flag. From then on the key is valid exactly at the times up to
  the new \<open>validUntil\<close>: a key revoked before is valid again, and a \<open>validUntil\<close> already in
  the past gives a key that is invalid at once.
\<close>

theorem addSessionKey_overwrites:
  assumes "msg_sender c = self c"
  shows "\<exists>s'. addSessionKey c k until cap s = Inr s' \<and>
           sessionKeys s' (self c) k = \<lparr>validUntil = until, maxValue = cap, isActive = True\<rparr> \<and>
           (\<forall>c'. isValidSessionKey c' s' k (self c) = (unat (timestamp c') \<le> unat until)) \<and>
           (unat until < unat (timestamp c) \<longrightarrow> \<not> isValidSessionKey c s' k (self c)) \<and>
           (\<forall>s0. revokeSessionKey c k s0 = Inr s \<longrightarrow> isActive (sessionKeys s' (self c) k))"
  using assms
  by (simp add: addSessionKey_def onlyDelegatingAccount_def isValidSessionKey_def word_le_nat_alt)

theorem addSessionKey_overwrites_witness:
  "(case revokeSessionKey account_ctx 5 (granted_state ()) of
      Inl e \<Rightarrow> False
    | Inr s1 \<Rightarrow> \<not> isValidSessionKey account_ctx s1 5 5 \<and>
        (case addSessionKey account_ctx 5 200 7 s1 of
           Inl e \<Rightarrow> False
         | Inr s2 \<Rightarrow> sessionKeys s2 5 5 = \<lparr>validUntil = 200, maxValue = 7, isActive = True\<rparr> \<and>
             isValidSessionKey account_ctx s2 5 5) \<and>
        (case addSessionKey account_ctx 5 99 7 s1 of
           Inl e \<Rightarrow> False
         | Inr s2 \<Rightarrow> sessionKeys s2 5 5 = \<lparr>validUntil = 99, maxValue = 7, isActive = True\<rparr> \<and>
             \<not> isValidSessionKey account_ctx s2 5 5))"
proof -
  have 1: "msg_sender account_ctx = self account_ctx"
    by (simp add: account_ctx_def)
  obtain s1 where s1: "revokeSessionKey account_ctx 5 (granted_state ()) = Inr s1"
    by (simp add: revokeSessionKey_def onlyDelegatingAccount_def account_ctx_def)
  have inv: "\<not> isValidSessionKey account_ctx s1 5 5"
    using s1
    by (auto simp: revokeSessionKey_def onlyDelegatingAccount_def account_ctx_def
        isValidSessionKey_def)
  from addSessionKey_overwrites [OF 1, of 5 200 7 s1] addSessionKey_overwrites [OF 1, of 5 99 7 s1]
  show ?thesis using s1 inv
    by (auto simp: account_ctx_def)
qed

text \<open>
  C9. Called by the account, \<open>revokeSessionKey\<close> succeeds whatever the entry of the pair
  is, never granted included. It clears the active flag of that entry and changes
  nothing else: the entry keeps its \<open>validUntil\<close> and \<open>maxValue\<close>, and every other entry,
  the nonces, the log and the world are as before. The pair is then invalid at every
  time, and revoking again gives the same state.
\<close>

theorem revokeSessionKey_idempotent:
  assumes "msg_sender c = self c"
  shows "\<exists>s1. revokeSessionKey c k s = Inr s1 \<and>
           sessionKeys s1 (self c) k =
             \<lparr>validUntil = validUntil (sessionKeys s (self c) k),
              maxValue = maxValue (sessionKeys s (self c) k), isActive = False\<rparr> \<and>
           (\<forall>a k'. (a, k') \<noteq> (self c, k) \<longrightarrow> sessionKeys s1 a k' = sessionKeys s a k') \<and>
           nonces s1 = nonces s \<and> events s1 = events s \<and> world s1 = world s \<and>
           \<not> isActive (sessionKeys s1 (self c) k) \<and>
           (\<forall>c'. \<not> isValidSessionKey c' s1 k (self c)) \<and>
           revokeSessionKey c k s1 = Inr s1 \<and>
           revokeSessionKey c k (init_state w) = Inr (init_state w) \<and>
           (\<forall>c'. \<not> isValidSessionKey c' (init_state w) k (self c))"
proof -
  have "(\<lambda>_ _. \<lparr>validUntil = 0, maxValue = 0, isActive = False\<rparr>)
        (self c := (\<lambda>_. \<lparr>validUntil = 0, maxValue = 0, isActive = False\<rparr>)
           (k := \<lparr>validUntil = 0, maxValue = 0, isActive = False\<rparr>)) =
        (\<lambda>_ _. \<lparr>validUntil = 0, maxValue = 0, isActive = False\<rparr>)"
    by (simp add: fun_eq_iff)
  with assms show ?thesis
    by (simp add: revokeSessionKey_def onlyDelegatingAccount_def isValidSessionKey_def init_state_def)
qed

theorem revokeSessionKey_idempotent_witness:
  "(case revokeSessionKey account_ctx 5 (granted_state ()) of
      Inl e \<Rightarrow> False
    | Inr s1 \<Rightarrow> isValidSessionKey account_ctx (granted_state ()) 5 5 \<and>
        sessionKeys s1 5 5 = \<lparr>validUntil = 1000, maxValue = 100, isActive = False\<rparr> \<and>
        sessionKeys s1 5 3 = sessionKeys (granted_state ()) 5 3 \<and>
        nonces s1 = nonces (granted_state ()) \<and> events s1 = events (granted_state ()) \<and>
        \<not> isValidSessionKey account_ctx s1 5 5 \<and> revokeSessionKey account_ctx 5 s1 = Inr s1) \<and>
   revokeSessionKey account_ctx 3 (init_state ()) = Inr (init_state ())"
proof -
  have 1: "msg_sender account_ctx = self account_ctx"
    by (simp add: account_ctx_def)
  have "isValidSessionKey account_ctx (granted_state ()) 5 5"
    by (simp add: isValidSessionKey_def granted_state_key account_ctx_def)
  with revokeSessionKey_idempotent [OF 1, of 5 "granted_state ()" "()"]
    revokeSessionKey_idempotent [OF 1, of 3 "granted_state ()" "()"]
  show ?thesis
    by (auto simp: account_ctx_def granted_state_key)
qed

subsection \<open>The nonce\<close>

text \<open>
  C2, as the code has it. The nonce of every account is 0 in fresh storage and no
  transaction decreases it. Over any transaction it grows by exactly the number of
  \<open>BatchExecuted\<close> events logged for the account meanwhile, one per completed
  \<open>executeBatch\<close>, those included that a callee started by calling back into the account;
  so after any sequence of transactions from fresh storage the nonce is the number of
  batches the log records. When the calls made do not change the nonces, a successful
  \<open>executeBatch\<close> increases the caller's nonce by exactly 1, whatever the number of calls,
  and leaves the other nonces, and a successful \<open>executeWithSessionKey\<close> leaves all of
  them. \<open>addSessionKey\<close> and \<open>revokeSessionKey\<close> never change a nonce.
\<close>

theorem nonce_counts_completed_batches:
  fixes callee :: "'w callee" and X :: "'w extcall"
  shows
  "getNonce (init_state w) a = 0 \<and>
   unat (getNonce s a) \<le> unat (getNonce (snd (transact callee depth c invoc s)) a) \<and>
   (\<exists>es. events (snd (transact callee depth c invoc s)) = events s @ es \<and>
      unat (getNonce (snd (transact callee depth c invoc s)) a) = unat (getNonce s a) + batches a es) \<and>
   unat (getNonce (run callee depth txs (init_state w)) a) =
      batches a (events (run callee depth txs (init_state w))) \<and>
   ((\<forall>t v d s0. nonces (snd (snd (X t v d s0))) = nonces s0) \<longrightarrow>
      (\<forall>s'. executeBatch X c calls s = Inr s' \<longrightarrow>
         unat (getNonce s' (msg_sender c)) = unat (getNonce s (msg_sender c)) + 1 \<and>
         (\<forall>b. b \<noteq> msg_sender c \<longrightarrow> getNonce s' b = getNonce s b)) \<and>
      (\<forall>s'. executeWithSessionKey X c tgt v dat s = Inr s' \<longrightarrow> nonces s' = nonces s)) \<and>
   (\<forall>s'. addSessionKey c k until cap s = Inr s' \<longrightarrow> nonces s' = nonces s) \<and>
   (\<forall>s'. revokeSessionKey c k s = Inr s' \<longrightarrow> nonces s' = nonces s)"
proof -
  have init: "getNonce (init_state w) a = 0"
    by (simp add: getNonce_def init_state_def)
  have step: "\<exists>es. events (snd (transact callee depth c invoc s)) = events s @ es \<and>
      unat (getNonce (snd (transact callee depth c invoc s)) a) = unat (getNonce s a) + batches a es"
    using transact_follows [of a s callee depth c invoc]
    by (simp add: nonce_follows_log_def getNonce_def)
  then have mono: "unat (getNonce s a) \<le> unat (getNonce (snd (transact callee depth c invoc s)) a)"
    by auto
  have reach: "unat (getNonce (run callee depth txs (init_state w)) a) =
      batches a (events (run callee depth txs (init_state w)))"
    using run_follows [of a "init_state w" callee depth txs]
    by (auto simp: nonce_follows_log_def getNonce_def init_state_def)
  have batch: "unat (getNonce s' (msg_sender c)) = unat (getNonce s (msg_sender c)) + 1 \<and>
         (\<forall>b. b \<noteq> msg_sender c \<longrightarrow> getNonce s' b = getNonce s b)"
    if "\<forall>t v d s0. nonces (snd (snd (X t v d s0))) = nonces s0"
      and "executeBatch X c calls s = Inr s'" for s'
    using executeBatch_plus_one [of X c calls s s'] that
    by (simp add: getNonce_def)
  have session: "nonces s' = nonces s"
    if "\<forall>t v d s0. nonces (snd (snd (X t v d s0))) = nonces s0"
      and "executeWithSessionKey X c tgt v dat s = Inr s'" for s'
    using executeWithSessionKey_result [OF that(2)] that(1) by simp
  have add: "nonces s' = nonces s" if "addSessionKey c k until cap s = Inr s'" for s'
    using that by (auto simp: addSessionKey_def split: option.splits)
  have revoke: "nonces s' = nonces s" if "revokeSessionKey c k s = Inr s'" for s'
    using that by (auto simp: revokeSessionKey_def split: option.splits)
  from init mono step reach batch session add revoke show ?thesis
    by blast
qed

theorem nonce_counts_completed_batches_witness:
  "(case executeBatch counting_callee account_ctx
      [\<lparr>target = 1, callvalue = 0, data = []\<rparr>, \<lparr>target = 4, callvalue = 0, data = []\<rparr>]
      (init_state (0::nat)) of
      Inl e \<Rightarrow> False
    | Inr s' \<Rightarrow> unat (getNonce s' 5) = 1 \<and> getNonce s' 6 = 0 \<and> world s' = 2) \<and>
   (case executeWithSessionKey counting_callee account_ctx 1 100 [] (granted_state (0::nat)) of
      Inl e \<Rightarrow> False
    | Inr s' \<Rightarrow> getNonce s' 5 = 0 \<and> world s' = 1)"
proof -
  have frame: "\<forall>t v d s0. nonces (snd (snd (counting_callee t v d s0))) = nonces s0"
    by (simp add: counting_callee_def)
  have b: "executeBatch counting_callee account_ctx
      [\<lparr>target = 1, callvalue = 0, data = []\<rparr>, \<lparr>target = 4, callvalue = 0, data = []\<rparr>]
      (init_state (0::nat)) =
      Inr ((init_state (0::nat))\<lparr>nonces := (nonces (init_state (0::nat)))(5 := 1), events := [BatchExecuted 5 0],
             world := 2\<rparr>)"
    by (simp add: executeBatch_def onlyDelegatingAccount_def account_ctx_def counting_callee_def
        init_state_def Let_def)
  have k: "executeWithSessionKey counting_callee account_ctx 1 100 [] (granted_state (0::nat)) =
      Inr ((granted_state (0::nat))\<lparr>world := 1\<rparr>)"
    by (simp add: executeWithSessionKey_def onlyAccountOrSession_def account_ctx_def
        counting_callee_def granted_state_key Let_def)
  have "\<forall>s'. executeBatch counting_callee account_ctx
      [\<lparr>target = 1, callvalue = 0, data = []\<rparr>, \<lparr>target = 4, callvalue = 0, data = []\<rparr>]
      (init_state (0::nat)) = Inr s' \<longrightarrow>
         unat (getNonce s' (msg_sender account_ctx)) = unat (getNonce (init_state (0::nat)) (msg_sender account_ctx)) + 1 \<and>
         (\<forall>b. b \<noteq> msg_sender account_ctx \<longrightarrow> getNonce s' b = getNonce (init_state (0::nat)) b)"
    using frame nonce_counts_completed_batches [where X = counting_callee and c = account_ctx
      and calls = "[\<lparr>target = 1, callvalue = 0, data = []\<rparr>, \<lparr>target = 4, callvalue = 0, data = []\<rparr>]"
      and s = "init_state (0::nat)"]
    by blast
  with b have 1: "unat (getNonce ((init_state (0::nat))\<lparr>nonces := (nonces (init_state (0::nat)))(5 := 1),
        events := [BatchExecuted 5 0], world := 2::nat\<rparr>) 5) = 1"
      and 2: "getNonce ((init_state (0::nat))\<lparr>nonces := (nonces (init_state (0::nat)))(5 := 1),
        events := [BatchExecuted 5 0], world := 2::nat\<rparr>) 6 = 0"
    by (simp_all add: account_ctx_def getNonce_def init_state_def)
  have "\<forall>s'. executeWithSessionKey counting_callee account_ctx 1 100 [] (granted_state (0::nat)) = Inr s' \<longrightarrow>
          nonces s' = nonces (granted_state (0::nat))"
    using frame nonce_counts_completed_batches [where X = counting_callee and c = account_ctx
      and tgt = 1 and v = 100 and dat = "[]" and s = "granted_state (0::nat)"]
    by blast
  with k have 3: "getNonce ((granted_state (0::nat))\<lparr>world := 1::nat\<rparr>) 5 = 0"
    by (simp add: getNonce_def granted_state_key)
  from b k 1 2 3 show ?thesis
    by simp
qed

text \<open>
  As the claim words it, every successful \<open>executeBatch\<close> would add exactly 1 and
  \<open>executeWithSessionKey\<close> would add nothing. The account at address 5 submits a batch
  of one call, to itself, whose data are a call of \<open>executeBatch\<close> with no calls: the
  nested call passes the sender check, both batches complete, and the nonce goes from 0
  to 2.
  The same call made through \<open>executeWithSessionKey\<close> takes the nonce from 0 to 1.
\<close>

theorem nonce_reentrancy_counterexample:
  "getNonce (init_state ()) 5 = 0 \<and>
   fst (transact self_calling (Suc (Suc 0)) account_ctx
          (ExecuteBatch [\<lparr>target = 5, callvalue = 0, data = executeBatch_no_calls\<rparr>]) (init_state ())) = None \<and>
   getNonce (snd (transact self_calling (Suc (Suc 0)) account_ctx
          (ExecuteBatch [\<lparr>target = 5, callvalue = 0, data = executeBatch_no_calls\<rparr>]) (init_state ()))) 5 = 2 \<and>
   getNonce (granted_state ()) 5 = 0 \<and>
   fst (transact self_calling (Suc (Suc 0)) account_ctx
          (ExecuteWithSessionKey 5 0 executeBatch_no_calls) (granted_state ())) = None \<and>
   getNonce (snd (transact self_calling (Suc (Suc 0)) account_ctx
          (ExecuteWithSessionKey 5 0 executeBatch_no_calls) (granted_state ()))) 5 = 1"
  by (simp add: transact_def executeBatch_def onlyDelegatingAccount_def account_ctx_def
      init_state_def self_calling_def Let_def commit_def getNonce_def
      executeWithSessionKey_def onlyAccountOrSession_def granted_state_key)

section \<open>Properties of Paymaster\<close>

lemma parseGasFees_high: "fst (parseGasFees g) = drop_bit 128 g"
proof -
  have "ucast (ucast (drop_bit 128 g) :: 128 word) = (drop_bit 128 g :: uint256)"
    by (rule bit_word_eqI) (auto simp: bit_simps dest: bit_imp_le_length)
  then show ?thesis
    by (simp add: parseGasFees_def Let_def)
qed

lemma validatePaymasterUserOp_unfold:
  "validatePaymasterUserOp ch c s userOp h maxCost =
     (if isShutdown s then Inl (Require ''Paymaster is shut down'')
      else if entryPoint s \<noteq> msg_sender c then Inl (Require ''Invalid entry point'')
      else if \<not> unat (preVerificationGas userOp) \<le> 10000000 then Inl (Require ''Gas limits too high'')
      else
        (case balanceOf ch (outside s) (entryPoint s) (self c) of
           Inl r \<Rightarrow> Inl (RevertData r)
         | Inr deposited \<Rightarrow>
             if \<not> unat maxCost \<le> unat deposited then Inl (Require ''Insufficient funds for gas'')
             else if \<not> unat (drop_bit 128 (gasFees userOp)) \<le> 100000000000
               then Inl (Require ''Gas fee too high'')
             else if \<not> sponsoredAccounts s (sender userOp) then Inl (Require ''Account not sponsored'')
             else Inr (abi_encode_address (sender userOp), 0)))"
proof -
  have fee: "fst (parseGasFees (gasFees userOp)) \<le> MAX_FEE_PER_GAS \<longleftrightarrow>
      unat (drop_bit 128 (gasFees userOp)) \<le> 100000000000"
    by (simp add: parseGasFees_high MAX_FEE_PER_GAS_def word_le_nat_alt)
  have gas: "preVerificationGas userOp \<le> MAX_GAS_LIMIT \<longleftrightarrow>
      unat (preVerificationGas userOp) \<le> 10000000"
    by (simp add: MAX_GAS_LIMIT_def word_le_nat_alt)
  show ?thesis
    using fee gas
    by (simp add: validatePaymasterUserOp_def notShutdown_def word_le_nat_alt case_prod_beta
        split: sum.splits)
qed

lemma validatePaymasterUserOp_deposited:
  assumes "balanceOf ch (outside s) (entryPoint s) (self c) = Inr deposited"
  shows "validatePaymasterUserOp ch c s userOp h maxCost =
     (if isShutdown s then Inl (Require ''Paymaster is shut down'')
      else if entryPoint s \<noteq> msg_sender c then Inl (Require ''Invalid entry point'')
      else if \<not> unat (preVerificationGas userOp) \<le> 10000000 then Inl (Require ''Gas limits too high'')
      else if \<not> unat maxCost \<le> unat deposited then Inl (Require ''Insufficient funds for gas'')
      else if \<not> unat (drop_bit 128 (gasFees userOp)) \<le> 100000000000
        then Inl (Require ''Gas fee too high'')
      else if \<not> sponsoredAccounts s (sender userOp) then Inl (Require ''Account not sponsored'')
      else Inr (abi_encode_address (sender userOp), 0))"
  by (simp only: validatePaymasterUserOp_unfold assms sum.case)

lemma validatePaymasterUserOp_query_failed:
  assumes "balanceOf ch (outside s) (entryPoint s) (self c) = Inl r"
  shows "validatePaymasterUserOp ch c s userOp h maxCost =
     (if isShutdown s then Inl (Require ''Paymaster is shut down'')
      else if entryPoint s \<noteq> msg_sender c then Inl (Require ''Invalid entry point'')
      else if \<not> unat (preVerificationGas userOp) \<le> 10000000 then Inl (Require ''Gas limits too high'')
      else Inl (RevertData r))"
  by (simp only: validatePaymasterUserOp_unfold assms sum.case)

subsection \<open>Admission\<close>

text \<open>
  C5, as the code has it. \<open>validatePaymasterUserOp\<close> makes six checks, in this order:
  the paymaster is not shut down, the caller is the EntryPoint, \<open>preVerificationGas\<close> is at
  most 10,000,000, the paymaster's deposit at the EntryPoint is at least \<open>maxCost\<close>, the
  fee in the upper half of \<open>gasFees\<close> is at most 100 gwei, the sender is whitelisted. The
  deposit is asked of the EntryPoint after the third check: when that call fails, the
  function reverts with the call's revert data. Otherwise it reverts with the reason of
  the first check that fails, and it admits the operation, returning the encoded sender
  and 0, exactly when the call returns a deposit and all six checks hold.
\<close>

theorem validatePaymasterUserOp_check_order:
  "validatePaymasterUserOp ch c s userOp h maxCost =
     (case first_failure (checks_before_query c s userOp) of
        Some reason \<Rightarrow> Inl (Require reason)
      | None \<Rightarrow>
          (case balanceOf ch (outside s) (entryPoint s) (self c) of
             Inl r \<Rightarrow> Inl (RevertData r)
           | Inr deposited \<Rightarrow>
               (case first_failure (checks_after_query s userOp maxCost deposited) of
                  Some reason \<Rightarrow> Inl (Require reason)
                | None \<Rightarrow> Inr (abi_encode_address (sender userOp), 0)))) \<and>
   (\<forall>deposited. balanceOf ch (outside s) (entryPoint s) (self c) = Inr deposited \<longrightarrow>
      validatePaymasterUserOp ch c s userOp h maxCost =
        (case first_failure (admission_checks c s userOp maxCost deposited) of
           Some reason \<Rightarrow> Inl (Require reason)
         | None \<Rightarrow> Inr (abi_encode_address (sender userOp), 0))) \<and>
   (\<forall>r. balanceOf ch (outside s) (entryPoint s) (self c) = Inl r \<longrightarrow>
      validatePaymasterUserOp ch c s userOp h maxCost =
        (case first_failure (checks_before_query c s userOp) of
           Some reason \<Rightarrow> Inl (Require reason)
         | None \<Rightarrow> Inl (RevertData r))) \<and>
   ((\<exists>r. validatePaymasterUserOp ch c s userOp h maxCost = Inr r) \<longleftrightarrow>
      \<not> isShutdown s \<and> entryPoint s = msg_sender c \<and>
      unat (preVerificationGas userOp) \<le> 10000000 \<and>
      (\<exists>deposited. balanceOf ch (outside s) (entryPoint s) (self c) = Inr deposited \<and>
         unat maxCost \<le> unat deposited) \<and>
      unat (drop_bit 128 (gasFees userOp)) \<le> 100000000000 \<and>
      sponsoredAccounts s (sender userOp))"
proof -
  have 1: "validatePaymasterUserOp ch c s userOp h maxCost =
     (case first_failure (checks_before_query c s userOp) of
        Some reason \<Rightarrow> Inl (Require reason)
      | None \<Rightarrow>
          (case balanceOf ch (outside s) (entryPoint s) (self c) of
             Inl r \<Rightarrow> Inl (RevertData r)
           | Inr deposited \<Rightarrow>
               (case first_failure (checks_after_query s userOp maxCost deposited) of
                  Some reason \<Rightarrow> Inl (Require reason)
                | None \<Rightarrow> Inr (abi_encode_address (sender userOp), 0))))"
    by (simp add: validatePaymasterUserOp_unfold checks_before_query_def checks_after_query_def
        split: sum.splits)
  have 2: "validatePaymasterUserOp ch c s userOp h maxCost =
        (case first_failure (admission_checks c s userOp maxCost deposited) of
           Some reason \<Rightarrow> Inl (Require reason)
         | None \<Rightarrow> Inr (abi_encode_address (sender userOp), 0))"
    if "balanceOf ch (outside s) (entryPoint s) (self c) = Inr deposited" for deposited
    by (simp add: validatePaymasterUserOp_deposited [OF that] admission_checks_def
        checks_before_query_def checks_after_query_def)
  have 3: "validatePaymasterUserOp ch c s userOp h maxCost =
        (case first_failure (checks_before_query c s userOp) of
           Some reason \<Rightarrow> Inl (Require reason)
         | None \<Rightarrow> Inl (RevertData r))"
    if "balanceOf ch (outside s) (entryPoint s) (self c) = Inl r" for r
    by (simp add: validatePaymasterUserOp_query_failed [OF that] checks_before_query_def)
  have 4: "(\<exists>r. validatePaymasterUserOp ch c s userOp h maxCost = Inr r) \<longleftrightarrow>
      \<not> isShutdown s \<and> entryPoint s = msg_sender c \<and>
      unat (preVerificationGas userOp) \<le> 10000000 \<and>
      (\<exists>deposited. balanceOf ch (outside s) (entryPoint s) (self c) = Inr deposited \<and>
         unat maxCost \<le> unat deposited) \<and>
      unat (drop_bit 128 (gasFees userOp)) \<le> 100000000000 \<and>
      sponsoredAccounts s (sender userOp)"
  proof (cases "balanceOf ch (outside s) (entryPoint s) (self c)")
    case (Inl r)
    then show ?thesis
      by (simp add: validatePaymasterUserOp_query_failed [OF Inl])
  next
    case (Inr deposited)
    then show ?thesis
      by (simp add: validatePaymasterUserOp_deposited [OF Inr])
  qed
  from 1 2 3 4 show ?thesis
    by blast
qed

theorem validatePaymasterUserOp_check_order_witness:
  "validatePaymasterUserOp deposit_chain entrypoint_ctx (example_paymaster 50000) (example_op 1) 0 50000 =
     Inr (abi_encode_address 7, 0) \<and>
   validatePaymasterUserOp deposit_chain owner_ctx (example_paymaster 0) (example_op (2 ^ 100)) 0 5 =
     Inl (Require ''Invalid entry point'') \<and>
   validatePaymasterUserOp deposit_chain entrypoint_ctx (example_paymaster 50000) (example_op (2 ^ 100)) 0 50000 =
     Inl (Require ''Gas fee too high'') \<and>
   validatePaymasterUserOp codeless_chain entrypoint_ctx (example_paymaster 50000) (example_op 1) 0 50000 =
     Inl (RevertData []) \<and>
   validatePaymasterUserOp codeless_chain owner_ctx (example_paymaster 50000) (example_op 1) 0 50000 =
     Inl (Require ''Invalid entry point'')"
proof -
  have 1: "validatePaymasterUserOp deposit_chain entrypoint_ctx (example_paymaster 50000)
      (example_op 1) 0 50000 = Inr (abi_encode_address 7, 0)"
    using validatePaymasterUserOp_check_order
      [of deposit_chain entrypoint_ctx "example_paymaster 50000" "example_op 1" 0 50000,
        THEN conjunct1]
    by (simp add: checks_before_query_def checks_after_query_def deposit_chain_def
        entrypoint_ctx_def example_paymaster_def example_op_def drop_bit_push_bit)
  have 2: "validatePaymasterUserOp deposit_chain owner_ctx (example_paymaster 0)
      (example_op (2 ^ 100)) 0 5 = Inl (Require ''Invalid entry point'')"
    using validatePaymasterUserOp_check_order
      [of deposit_chain owner_ctx "example_paymaster 0" "example_op (2 ^ 100)" 0 5,
        THEN conjunct1]
    by (simp add: checks_before_query_def owner_ctx_def example_paymaster_def example_op_def)
  have 3: "validatePaymasterUserOp deposit_chain entrypoint_ctx (example_paymaster 50000)
      (example_op (2 ^ 100)) 0 50000 = Inl (Require ''Gas fee too high'')"
    using validatePaymasterUserOp_check_order
      [of deposit_chain entrypoint_ctx "example_paymaster 50000" "example_op (2 ^ 100)" 0 50000,
        THEN conjunct1]
    by (simp add: checks_before_query_def checks_after_query_def deposit_chain_def
        entrypoint_ctx_def example_paymaster_def example_op_def drop_bit_push_bit)
  have 4: "validatePaymasterUserOp codeless_chain entrypoint_ctx (example_paymaster 50000)
      (example_op 1) 0 50000 = Inl (RevertData [])"
    using validatePaymasterUserOp_check_order
      [of codeless_chain entrypoint_ctx "example_paymaster 50000" "example_op 1" 0 50000,
        THEN conjunct1]
    by (simp add: checks_before_query_def codeless_chain_def entrypoint_ctx_def
        example_paymaster_def example_op_def)
  have 5: "validatePaymasterUserOp codeless_chain owner_ctx (example_paymaster 50000)
      (example_op 1) 0 50000 = Inl (Require ''Invalid entry point'')"
    using validatePaymasterUserOp_check_order
      [of codeless_chain owner_ctx "example_paymaster 50000" "example_op 1" 0 50000,
        THEN conjunct1]
    by (simp add: checks_before_query_def owner_ctx_def example_paymaster_def example_op_def)
  from 1 2 3 4 5 show ?thesis
    by simp
qed

text \<open>
  In the order the claim gives, an operation whose fee is above the ceiling and whose
  cost is above the paymaster's deposit would be refused for its fee; the function
  checks the deposit first and refuses it for insufficient funds. The EntryPoint returns
  the deposit 0 here.
\<close>

theorem check_order_counterexample:
  "balanceOf deposit_chain (outside (example_paymaster 0)) (entryPoint (example_paymaster 0))
      (self entrypoint_ctx) = Inr 0 \<and>
   first_failure (specified_checks entrypoint_ctx (example_paymaster 0)
      (example_op (2 ^ 100)) 5 0) = Some ''Gas fee too high'' \<and>
   validatePaymasterUserOp deposit_chain entrypoint_ctx (example_paymaster 0)
      (example_op (2 ^ 100)) 0 5 = Inl (Require ''Insufficient funds for gas'')"
  by (simp add: validatePaymasterUserOp_unfold specified_checks_def deposit_chain_def
      entrypoint_ctx_def example_paymaster_def example_op_def drop_bit_push_bit)

text \<open>
  C6. For an operation that passes the other checks, a deposit one unit short of
  \<open>maxCost\<close> is refused for insufficient funds and a deposit equal to \<open>maxCost\<close> is
  admitted: the comparison is \<open>\<ge>\<close>. The deposit is the number the EntryPoint returns.
\<close>

theorem funded_balance_boundary:
  assumes "\<not> isShutdown s"
    and "entryPoint s = msg_sender c"
    and "unat (preVerificationGas userOp) \<le> 10000000"
    and "unat (drop_bit 128 (gasFees userOp)) \<le> 100000000000"
    and "sponsoredAccounts s (sender userOp)"
    and "balanceOf ch (outside s) (entryPoint s) (self c) = Inr deposited"
  shows "(unat deposited + 1 = unat maxCost \<longrightarrow>
            validatePaymasterUserOp ch c s userOp h maxCost =
              Inl (Require ''Insufficient funds for gas'')) \<and>
         (deposited = maxCost \<longrightarrow>
            validatePaymasterUserOp ch c s userOp h maxCost =
              Inr (abi_encode_address (sender userOp), 0)) \<and>
         (unat deposited < unat maxCost \<longrightarrow>
            validatePaymasterUserOp ch c s userOp h maxCost =
              Inl (Require ''Insufficient funds for gas'')) \<and>
         (unat maxCost \<le> unat deposited \<longrightarrow>
            validatePaymasterUserOp ch c s userOp h maxCost =
              Inr (abi_encode_address (sender userOp), 0))"
  using assms(1-5) by (auto simp: validatePaymasterUserOp_deposited [OF assms(6)])

theorem funded_balance_boundary_witness:
  "validatePaymasterUserOp deposit_chain entrypoint_ctx (example_paymaster 49999) (example_op 1) 0 50000 =
     Inl (Require ''Insufficient funds for gas'') \<and>
   validatePaymasterUserOp deposit_chain entrypoint_ctx (example_paymaster 50000) (example_op 1) 0 50000 =
     Inr (abi_encode_address 7, 0)"
proof -
  have 1: "\<not> isShutdown (example_paymaster w)"
    and 2: "entryPoint (example_paymaster w) = msg_sender entrypoint_ctx"
    and 3: "unat (preVerificationGas (example_op 1)) \<le> 10000000"
    and 4: "unat (drop_bit 128 (gasFees (example_op 1))) \<le> 100000000000"
    and 5: "sponsoredAccounts (example_paymaster w) (sender (example_op 1))"
    and 6: "balanceOf deposit_chain (outside (example_paymaster w)) (entryPoint (example_paymaster w))
              (self entrypoint_ctx) = Inr w" for w
    by (simp_all add: example_paymaster_def entrypoint_ctx_def example_op_def drop_bit_push_bit
        deposit_chain_def)
  from funded_balance_boundary [OF 1 2 3 4 5 6, of 49999 50000 0]
    funded_balance_boundary [OF 1 2 3 4 5 6, of 50000 50000 0]
  show ?thesis
    by (simp add: example_op_def)
qed

subsection \<open>Shutdown and recorded usage only go one way\<close>

lemma monotone_refl: "paymaster_monotone s s"
  by (simp add: paymaster_monotone_def)

lemma monotone_trans:
  "paymaster_monotone s t \<Longrightarrow> paymaster_monotone t u \<Longrightarrow> paymaster_monotone s u"
  unfolding paymaster_monotone_def by (meson le_trans)

lemma checked_add_le:
  fixes x y :: uint256
  assumes "\<not> 2 ^ 256 \<le> unat x + unat y"
  shows "unat (x + y) = unat x + unat y"
proof -
  from assms have "unat x + unat y < 2 ^ LENGTH(256)" by simp
  then show ?thesis by (simp only: unat_add_lem)
qed

lemma postOp_monotone:
  assumes "postOp c mode ctxt cost fee s = Inr s'"
  shows "paymaster_monotone s s'"
proof -
  from assms obtain a where a: "abi_decode_address ctxt = Some a"
    and nov: "\<not> 2 ^ 256 \<le> unat (accountGasUsage s a) + unat cost"
    and s': "s' = s\<lparr>accountGasUsage := (accountGasUsage s)(a := accountGasUsage s a + cost)\<rparr>"
    by (auto simp: postOp_def split: option.splits if_splits)
  from checked_add_le [OF nov] s' show ?thesis
    by (simp add: paymaster_monotone_def)
qed

lemma external_result:
  assumes X: "\<And>t v m s. paymaster_monotone s (snd (snd (X t v m s)))"
    and r: "(case X t v m s of (success, result, s') \<Rightarrow>
               if \<not> success then Inl (RevertData result) else Inr s') = Inr s'"
  shows "paymaster_monotone s s'"
proof -
  from r have "s' = snd (snd (X t v m s))"
    by (auto split: prod.splits if_splits)
  with X show ?thesis by simp
qed

lemma pdispatch_monotone:
  assumes X: "\<And>t v m s. paymaster_monotone s (snd (snd (X t v m s)))"
    and ex: "pdispatch ch X c invoc s = Inr s'"
  shows "paymaster_monotone s s'"
proof (cases invoc)
  case (AddSponsoredAccount a)
  with ex show ?thesis
    by (auto simp: addSponsoredAccount_def paymaster_monotone_def split: option.splits)
next
  case (RemoveSponsoredAccount a)
  with ex show ?thesis
    by (auto simp: removeSponsoredAccount_def paymaster_monotone_def split: option.splits)
next
  case (ValidatePaymasterUserOp userOp h maxCost)
  with ex show ?thesis
    by (auto simp: monotone_refl split: sum.splits)
next
  case (PostOp mode ctxt cost fee)
  with ex postOp_monotone show ?thesis by simp
next
  case (Deposit v)
  let ?s0 = "s\<lparr>outside := pay ch (outside s) (msg_sender c) (self c) v\<rparr>"
  from Deposit ex have "(case X (entryPoint ?s0) v (DepositTo (self c)) ?s0 of
               (success, result, s') \<Rightarrow>
               if \<not> success then Inl (RevertData result) else Inr s') = Inr s'"
    by (simp add: deposit_def split: option.splits)
  from external_result [of X, OF X this] have "paymaster_monotone ?s0 s'" .
  moreover have "paymaster_monotone s ?s0"
    by (simp add: paymaster_monotone_def)
  ultimately show ?thesis by (blast intro: monotone_trans)
next
  case GetDeposit
  with ex show ?thesis
    by (auto simp: monotone_refl split: sum.splits)
next
  case (ReceiveEther v)
  with ex show ?thesis
    by (auto simp: paymaster_monotone_def)
next
  case (WithdrawFromEntryPoint amount)
  with ex have "(case X (entryPoint s) 0 (WithdrawTo (owner s) amount) s of (success, result, s') \<Rightarrow>
               if \<not> success then Inl (RevertData result) else Inr s') = Inr s'"
    by (simp add: withdrawFromEntryPoint_def split: option.splits)
  from external_result [of X, OF X this] show ?thesis .
next
  case Withdraw
  with ex have "(case X (owner s) (balance ch (outside s) (self c)) Transfer s of (success, result, s') \<Rightarrow>
               if \<not> success then Inl (RevertData result) else Inr s') = Inr s'"
    by (simp add: withdraw_def split: option.splits)
  from external_result [of X, OF X this] show ?thesis .
next
  case Shutdown
  let ?s1 = "s\<lparr>isShutdown := True\<rparr>"
  from Shutdown ex have "(case X (owner ?s1) (balance ch (outside ?s1) (self c)) Transfer ?s1 of
               (success, result, s') \<Rightarrow>
               if \<not> success then Inl (RevertData result) else Inr s') = Inr s'"
    by (simp add: shutdown_def Let_def split: option.splits)
  from external_result [of X, OF X this] have "paymaster_monotone ?s1 s'" .
  moreover have "paymaster_monotone s ?s1"
    by (simp add: paymaster_monotone_def)
  ultimately show ?thesis by (blast intro: monotone_trans)
next
  case RenounceOwnership
  with ex show ?thesis
    by (auto simp: renounceOwnership_def paymaster_monotone_def split: option.splits)
next
  case (TransferOwnership a)
  with ex show ?thesis
    by (auto simp: transferOwnership_def paymaster_monotone_def split: option.splits if_splits)
qed (use ex in \<open>simp_all add: monotone_refl\<close>)

lemma run_reentries_monotone:
  assumes h: "\<And>c invoc s s'. h c invoc s = Inr s' \<Longrightarrow> paymaster_monotone s s'"
  shows "paymaster_monotone s (run_reentries h c rs s)"
proof (induction rs arbitrary: s)
  case Nil
  show ?case by (simp add: monotone_refl)
next
  case (Cons r rs)
  obtain caller invoc where r: "r = (caller, invoc)" by (cases r)
  have "paymaster_monotone s (snd (commit s (h (c\<lparr>msg_sender := caller\<rparr>) invoc s)))"
    by (cases "h (c\<lparr>msg_sender := caller\<rparr>) invoc s") (simp_all add: commit_def monotone_refl h)
  from monotone_trans [OF this Cons.IH] r show ?case by simp
qed

lemma paymaster_call_monotone:
  "paymaster_monotone s (snd (snd (paymaster_call ch callee c depth t v m s)))"
proof (induction depth arbitrary: s t v m)
  case 0
  show ?case by (simp add: monotone_refl)
next
  case (Suc depth)
  let ?r = "callee c t v m s"
  have w: "paymaster_monotone s (s\<lparr>outside := world_after ?r\<rparr>)"
    by (simp add: paymaster_monotone_def)
  have "paymaster_monotone (s\<lparr>outside := world_after ?r\<rparr>)
     (run_reentries (pdispatch ch (paymaster_call ch callee c depth)) c (reentries ?r)
        (s\<lparr>outside := world_after ?r\<rparr>))"
    by (rule run_reentries_monotone) (rule pdispatch_monotone [OF Suc.IH])
  from monotone_trans [OF w this] show ?case
    by (simp add: Let_def monotone_refl)
qed

lemma ptransact_monotone: "paymaster_monotone s (snd (ptransact ch callee depth c invoc s))"
proof (cases "pdispatch ch (paymaster_call ch callee c depth) c invoc s")
  case (Inl e)
  then show ?thesis by (simp add: ptransact_def commit_def monotone_refl)
next
  case (Inr s')
  from pdispatch_monotone [OF paymaster_call_monotone Inr] Inr show ?thesis
    by (simp add: ptransact_def commit_def)
qed

lemma prun_monotone: "paymaster_monotone s (prun ch callee depth txs s)"
proof (induction txs arbitrary: s)
  case Nil
  show ?case by (simp add: monotone_refl)
next
  case (Cons x txs)
  obtain c invoc where "x = (c, invoc)" by (cases x)
  then show ?case
    using monotone_trans [OF ptransact_monotone [of s ch callee depth c invoc]
        Cons.IH [of "snd (ptransact ch callee depth c invoc s)"]]
    by simp
qed

lemma shutdown_sets_flag:
  assumes "ptransact ch callee depth c Shutdown s = (None, s1)"
  shows "isShutdown s1"
proof -
  let ?X = "paymaster_call ch callee c depth"
  let ?s0 = "s\<lparr>isShutdown := True\<rparr>"
  from assms have ok: "shutdown ch ?X c s = Inr s1"
    by (cases "shutdown ch ?X c s") (simp_all add: ptransact_def commit_def)
  then have "(case ?X (owner ?s0) (balance ch (outside ?s0) (self c)) Transfer ?s0 of
               (success, result, s') \<Rightarrow>
               if \<not> success then Inl (RevertData result) else Inr s') = Inr s1"
    by (simp add: shutdown_def Let_def split: option.splits)
  from external_result [of ?X, OF paymaster_call_monotone this]
  show ?thesis by (simp add: paymaster_monotone_def)
qed

subsection \<open>The context handed from validation to \<open>postOp\<close>\<close>

lemma bytes_fold:
  fixes W :: uint256
  assumes "n \<le> 32"
  shows "foldl (\<lambda>acc b. push_bit 8 acc OR ucast b) 0
           (map (\<lambda>i. ucast (drop_bit (8 * (31 - i)) W) :: 8 word) [0..<n]) =
         drop_bit (8 * (32 - n)) W"
  using assms
proof (induction n)
  case 0
  show ?case by (simp add: drop_bit_eq_zero_iff_not_bit_last) 
next
  case (Suc n)
  then have n: "n < 32" by simp
  then have e: "8 * (32 - n) = 8 * (31 - n) + 8" by simp
  have "push_bit 8 (drop_bit (8 * (32 - n)) W) OR ucast (ucast (drop_bit (8 * (31 - n)) W) :: 8 word)
        = drop_bit (8 * (31 - n)) W"
    unfolding e
  proof (rule bit_word_eqI)
    fix k
    assume "k < LENGTH(256)"
    show "bit (push_bit 8 (drop_bit (8 * (31 - n) + 8) W) OR
               ucast (ucast (drop_bit (8 * (31 - n)) W) :: 8 word)) k =
          bit (drop_bit (8 * (31 - n)) W) k"
    proof (cases "k < 8")
      case True
      then show ?thesis by (simp add: bit_simps)
    next
      case False
      then have "8 * (31 - n) + 8 + (k - 8) = 8 * (31 - n) + k" by simp
      with False \<open>k < LENGTH(256)\<close> show ?thesis
        by (simp add: bit_simps ac_simps)
    qed
  qed
  with Suc n show ?case by simp
qed

lemma abi_roundtrip: "abi_decode_address (abi_encode_address a) = Some a"
proof -
  have f: "foldl (\<lambda>acc b. push_bit 8 acc OR ucast b) 0
           (map (\<lambda>i. ucast (drop_bit (8 * (31 - i)) (ucast a :: uint256)) :: 8 word) [0..<32]) =
         (ucast a :: uint256)"
    using bytes_fold [of 32 "ucast a"] by simp
  have z: "drop_bit 160 (ucast a :: uint256) = 0"
    by (rule bit_word_eqI) (auto simp: bit_simps dest: bit_imp_le_length)
  have u: "ucast (ucast a :: uint256) = a"
    by (rule bit_word_eqI) (auto simp: bit_simps)
  show ?thesis
    by (simp add: abi_decode_address_def abi_encode_address_def f z u)
qed

subsection \<open>Recording usage\<close>

text \<open>
  C8, as the code has it. \<open>postOp\<close> carries the \<open>notShutdown\<close> guard and checks its
  caller, so it can revert. When the paymaster is not shut down, the caller is the
  EntryPoint, the context decodes to an account (the context \<open>validatePaymasterUserOp\<close>
  returns decodes to the operation's sender) and the sum does not overflow, it succeeds,
  adds the actual cost to that account's usage and leaves the other accounts' usage; in
  every other case it reverts, with the shutdown reason when the paymaster is shut down.
  No transaction decreases any account's usage.
\<close>

theorem postOp_records_usage:
  "(\<not> isShutdown s \<and> entryPoint s = msg_sender c \<and> abi_decode_address ctxt = Some a \<and>
    unat (accountGasUsage s a) + unat cost < 2 ^ 256 \<longrightarrow>
      (\<exists>s'. postOp c mode ctxt cost fee s = Inr s' \<and>
         unat (accountGasUsage s' a) = unat (accountGasUsage s a) + unat cost \<and>
         (\<forall>b. b \<noteq> a \<longrightarrow> accountGasUsage s' b = accountGasUsage s b))) \<and>
   ((\<exists>s'. postOp c mode ctxt cost fee s = Inr s') \<longrightarrow>
      \<not> isShutdown s \<and> entryPoint s = msg_sender c \<and>
      (\<exists>b. abi_decode_address ctxt = Some b \<and> unat (accountGasUsage s b) + unat cost < 2 ^ 256)) \<and>
   (isShutdown s \<longrightarrow> postOp c mode ctxt cost fee s = Inl (Require ''Paymaster is shut down'')) \<and>
   abi_decode_address (abi_encode_address a) = Some a \<and>
   (\<forall>b. unat (accountGasUsage s b) \<le>
      unat (accountGasUsage (snd (ptransact ch callee depth c' invoc s)) b))"
proof -
  have ok: "\<exists>s'. postOp c mode ctxt cost fee s = Inr s' \<and>
         unat (accountGasUsage s' a) = unat (accountGasUsage s a) + unat cost \<and>
         (\<forall>b. b \<noteq> a \<longrightarrow> accountGasUsage s' b = accountGasUsage s b)"
    if "\<not> isShutdown s" "entryPoint s = msg_sender c" "abi_decode_address ctxt = Some a"
      "unat (accountGasUsage s a) + unat cost < 2 ^ 256"
  proof -
    from that(4) have "\<not> 2 ^ 256 \<le> unat (accountGasUsage s a) + unat cost" by simp
    with checked_add_le [OF this] that show ?thesis
      by (simp add: postOp_def notShutdown_def)
  qed
  have only: "\<not> isShutdown s \<and> entryPoint s = msg_sender c \<and>
      (\<exists>b. abi_decode_address ctxt = Some b \<and> unat (accountGasUsage s b) + unat cost < 2 ^ 256)"
    if "\<exists>s'. postOp c mode ctxt cost fee s = Inr s'"
    using that
    by (auto simp: postOp_def notShutdown_def not_le split: option.splits if_splits)
  have shut: "postOp c mode ctxt cost fee s = Inl (Require ''Paymaster is shut down'')"
    if "isShutdown s"
    using that by (simp add: postOp_def notShutdown_def)
  have mono: "\<forall>b. unat (accountGasUsage s b) \<le>
      unat (accountGasUsage (snd (ptransact ch callee depth c' invoc s)) b)"
    using ptransact_monotone [of s ch callee depth c' invoc]
    by (simp add: paymaster_monotone_def)
  from ok only shut mono abi_roundtrip [of a] show ?thesis
    by blast
qed

theorem postOp_records_usage_witness:
  "(case postOp entrypoint_ctx opSucceeded (abi_encode_address 7) 21000 1 (example_paymaster 50000) of
      Inl e \<Rightarrow> False
    | Inr s' \<Rightarrow> unat (accountGasUsage s' 7) = 21000 \<and> accountGasUsage s' 3 = 0) \<and>
   postOp entrypoint_ctx opSucceeded (abi_encode_address 7) 21000 1
      ((example_paymaster 50000)\<lparr>isShutdown := True\<rparr>) = Inl (Require ''Paymaster is shut down'')"
proof -
  let ?s = "example_paymaster 50000"
  have d: "abi_decode_address (abi_encode_address 7) = Some 7"
    using postOp_records_usage [of ?s entrypoint_ctx "[]" 7 0] by blast
  have pre: "\<not> isShutdown ?s \<and> entryPoint ?s = msg_sender entrypoint_ctx \<and>
      abi_decode_address (abi_encode_address 7) = Some 7 \<and>
      unat (accountGasUsage ?s 7) + unat (21000 :: uint256) < 2 ^ 256"
    using d by (simp add: example_paymaster_def entrypoint_ctx_def)
  have "\<exists>s'. postOp entrypoint_ctx opSucceeded (abi_encode_address 7) 21000 1 ?s = Inr s' \<and>
         unat (accountGasUsage s' 7) = unat (accountGasUsage ?s 7) + unat (21000 :: uint256) \<and>
         (\<forall>b. b \<noteq> 7 \<longrightarrow> accountGasUsage s' b = accountGasUsage ?s b)"
    using pre postOp_records_usage [of ?s entrypoint_ctx "abi_encode_address 7" 7 21000 opSucceeded 1]
    by blast
  then obtain s' where 1: "postOp entrypoint_ctx opSucceeded (abi_encode_address 7) 21000 1 ?s = Inr s'"
    and 2: "unat (accountGasUsage s' 7) = 21000" and 3: "accountGasUsage s' 3 = 0"
    by (auto simp: example_paymaster_def)
  have "postOp entrypoint_ctx opSucceeded (abi_encode_address 7) 21000 1
      (?s\<lparr>isShutdown := True\<rparr>) = Inl (Require ''Paymaster is shut down'')"
    using postOp_records_usage [of "?s\<lparr>isShutdown := True\<rparr>" entrypoint_ctx "abi_encode_address 7" 7
        21000 opSucceeded 1]
    by simp
  with 1 2 3 show ?thesis by simp
qed

text \<open>
  The claim has the recording step unable to fail in any state of the paymaster. An
  operation of account 7 is admitted; the owner then shuts the paymaster down; the
  \<open>postOp\<close> of the operation reverts.
\<close>

theorem postOp_shutdown_counterexample:
  "validatePaymasterUserOp deposit_chain entrypoint_ctx (example_paymaster 50000) (example_op 1) 0 50000 =
     Inr (abi_encode_address 7, 0) \<and>
   ptransact deposit_chain quiet_callee (Suc 0) owner_ctx Shutdown (example_paymaster 50000) =
     (None, (example_paymaster 50000)\<lparr>isShutdown := True\<rparr>) \<and>
   postOp entrypoint_ctx opSucceeded (abi_encode_address 7) 21000 1
     ((example_paymaster 50000)\<lparr>isShutdown := True\<rparr>) = Inl (Require ''Paymaster is shut down'')"
  by (simp add: validatePaymasterUserOp_unfold postOp_def notShutdown_def ptransact_def
      shutdown_def onlyOwner_def commit_def quiet_callee_def deposit_chain_def
      entrypoint_ctx_def owner_ctx_def example_paymaster_def example_op_def drop_bit_push_bit)

subsection \<open>Shutdown\<close>

text \<open>
  C10, as the code has it. The constructor leaves the flag clear. A successful
  \<open>shutdown\<close> leaves the flag set, and no sequence of transactions on a shut-down
  paymaster, whatever the callees do, clears it. On a
  shut-down paymaster \<open>validatePaymasterUserOp\<close> and \<open>postOp\<close> revert with the shutdown
  reason for every caller and argument. \<open>withdraw\<close> reverts too, but its owner check comes
  first: it reverts with the shutdown reason for the owner and with
  \<open>OwnableUnauthorizedAccount\<close> for anyone else.
\<close>

theorem shutdown_is_permanent:
  fixes X :: "'w pextcall"
  shows
  "(\<forall>s1. constructor deployer ep factory w = Inr s1 \<longrightarrow> \<not> isShutdown s1) \<and>
   (\<forall>s1. ptransact ch callee depth c0 Shutdown s0 = (None, s1) \<longrightarrow> isShutdown s1) \<and>
   (isShutdown s \<longrightarrow>
      isShutdown (prun ch callee depth txs s) \<and>
      validatePaymasterUserOp ch c (prun ch callee depth txs s) userOp h maxCost =
        Inl (Require ''Paymaster is shut down'') \<and>
      postOp c mode ctxt cost fee (prun ch callee depth txs s) =
        Inl (Require ''Paymaster is shut down'') \<and>
      withdraw ch X c (prun ch callee depth txs s) =
        Inl (if owner (prun ch callee depth txs s) = msg_sender c
             then Require ''Paymaster is shut down''
             else OwnableUnauthorizedAccount (msg_sender c)))"
proof -
  have later: "isShutdown (prun ch callee depth txs s)" if "isShutdown s"
    using prun_monotone [of s ch callee depth txs] that
    by (simp add: paymaster_monotone_def)
  have shut: "validatePaymasterUserOp ch c t userOp h maxCost = Inl (Require ''Paymaster is shut down'') \<and>
      postOp c mode ctxt cost fee t = Inl (Require ''Paymaster is shut down'') \<and>
      withdraw ch X c t =
        Inl (if owner t = msg_sender c then Require ''Paymaster is shut down''
             else OwnableUnauthorizedAccount (msg_sender c))"
    if "isShutdown t" for t
    using that
    by (simp add: validatePaymasterUserOp_def postOp_def withdraw_def notShutdown_def onlyOwner_def)
  have fresh: "\<not> isShutdown s1" if "constructor deployer ep factory w = Inr s1" for s1
    using that by (auto simp: constructor_def split: if_splits)
  from fresh shutdown_sets_flag [of ch callee depth c0 s0] later shut [OF later] show ?thesis
    by blast
qed

theorem shutdown_is_permanent_witness:
  "ptransact deposit_chain quiet_callee (Suc 0) owner_ctx Shutdown (example_paymaster 50000) =
     (None, (example_paymaster 50000)\<lparr>isShutdown := True\<rparr>) \<and>
   isShutdown (prun deposit_chain quiet_callee (Suc 0)
      [(owner_ctx, Deposit 5), (owner_ctx, TransferOwnership 4), (entrypoint_ctx, Getter)]
      ((example_paymaster 50000)\<lparr>isShutdown := True\<rparr>)) \<and>
   validatePaymasterUserOp deposit_chain entrypoint_ctx (prun deposit_chain quiet_callee (Suc 0)
      [(owner_ctx, Deposit 5), (owner_ctx, TransferOwnership 4), (entrypoint_ctx, Getter)]
      ((example_paymaster 50000)\<lparr>isShutdown := True\<rparr>)) (example_op 1) 0 50000 =
     Inl (Require ''Paymaster is shut down'')"
proof -
  let ?s = "(example_paymaster 50000)\<lparr>isShutdown := True\<rparr>"
  have 1: "ptransact deposit_chain quiet_callee (Suc 0) owner_ctx Shutdown (example_paymaster 50000) =
     (None, ?s)"
    by (simp add: ptransact_def shutdown_def onlyOwner_def commit_def quiet_callee_def
        deposit_chain_def owner_ctx_def example_paymaster_def)
  have 2: "isShutdown ?s" by simp
  from shutdown_is_permanent [where ch = deposit_chain and callee = quiet_callee
      and depth = "Suc 0" and ?c0.0 = owner_ctx and ?s0.0 = "example_paymaster 50000" and s = ?s
      and txs = "[(owner_ctx, Deposit 5), (owner_ctx, TransferOwnership 4), (entrypoint_ctx, Getter)]"
      and c = entrypoint_ctx and userOp = "example_op 1" and h = 0 and maxCost = 50000
      and deployer = 9 and ep = 8 and factory = 3 and w = "50000 :: uint256"] 1 2
  show ?thesis by blast
qed

text \<open>
  The claim has \<open>withdraw\<close> revert with the shutdown reason in every state after
  shutdown. After the owner (address 9) has shut the paymaster down, a \<open>withdraw\<close> by
  address 8 reverts with the owner check's error instead.
\<close>

theorem withdraw_after_shutdown_counterexample:
  "ptransact deposit_chain quiet_callee (Suc 0) owner_ctx Shutdown (example_paymaster 50000) =
     (None, (example_paymaster 50000)\<lparr>isShutdown := True\<rparr>) \<and>
   ptransact deposit_chain quiet_callee (Suc 0) entrypoint_ctx Withdraw
     ((example_paymaster 50000)\<lparr>isShutdown := True\<rparr>) =
     (Some (OwnableUnauthorizedAccount 8), (example_paymaster 50000)\<lparr>isShutdown := True\<rparr>)"
  by (simp add: ptransact_def shutdown_def withdraw_def onlyOwner_def notShutdown_def commit_def
      quiet_callee_def deposit_chain_def owner_ctx_def entrypoint_ctx_def example_paymaster_def)

end
